theory Spec2Isabelle
  imports Main "HOL-Library.Word"
begin

unbundle bit_operations_syntax

section \<open>Windows filesystem driver of SDL (src/filesystem/windows/SDL_sysfsops.c)\<close>

subsection \<open>Native data\<close>

text \<open>
  A \<^verbatim>\<open>WCHAR\<close> is a 16-bit code unit. A NUL-terminated wide string is the list of its
  code units before the terminator; reading at the position of the terminator (or
  beyond, which the driver never does) gives 0. UTF-8 paths are \<^typ>\<open>string\<close>s, again
  without the terminator.
\<close>

type_synonym WCHAR = "16 word"
type_synonym wstring = "WCHAR list"
type_synonym DWORD = "32 word"
type_synonym Uint64 = "64 word"
type_synonym Sint64 = "64 word" \<comment> \<open>two's complement: its value is read with \<^const>\<open>sint\<close>\<close>

definition wchar_at :: "wstring \<Rightarrow> nat \<Rightarrow> WCHAR" where
  "wchar_at fn i = (if i < length fn then fn ! i else 0)"

record FILETIME =
  dwLowDateTime :: DWORD
  dwHighDateTime :: DWORD

record WIN32_FILE_ATTRIBUTE_DATA =
  dwFileAttributes :: DWORD
  ftCreationTime :: FILETIME
  ftLastAccessTime :: FILETIME
  ftLastWriteTime :: FILETIME
  nFileSizeHigh :: DWORD
  nFileSizeLow :: DWORD

text \<open>Constants of the Windows SDK headers (winnt.h, winerror.h, winbase.h).\<close>

definition FILE_ATTRIBUTE_DIRECTORY :: DWORD where "FILE_ATTRIBUTE_DIRECTORY = 0x10"
definition FILE_ATTRIBUTE_DEVICE :: DWORD where "FILE_ATTRIBUTE_DEVICE = 0x40"
definition FILE_ATTRIBUTE_OFFLINE :: DWORD where "FILE_ATTRIBUTE_OFFLINE = 0x1000"
definition ERROR_FILE_NOT_FOUND :: DWORD where "ERROR_FILE_NOT_FOUND = 2"
definition ERROR_PATH_NOT_FOUND :: DWORD where "ERROR_PATH_NOT_FOUND = 3"
definition MOVEFILE_REPLACE_EXISTING :: DWORD where "MOVEFILE_REPLACE_EXISTING = 1"

text \<open>\<^verbatim>\<open>#define SDL_NS_PER_SECOND 1000000000LL\<close> (SDL_timer.h), converted to unsigned
  64 bits where the driver divides it by \<^verbatim>\<open>100ull\<close>.\<close>

definition SDL_NS_PER_SECOND :: Uint64 where "SDL_NS_PER_SECOND = 1000000000"

subsection \<open>Path information (SDL_filesystem.h)\<close>

datatype SDL_PathType =
  SDL_PATHTYPE_NONE | SDL_PATHTYPE_FILE | SDL_PATHTYPE_DIRECTORY | SDL_PATHTYPE_OTHER

record SDL_PathInfo =
  info_type :: SDL_PathType
  info_size :: Uint64
  create_time :: Sint64
  modify_time :: Sint64
  access_time :: Sint64

subsection \<open>The time converter\<close>

text \<open>\<^verbatim>\<open>ULARGE_INTEGER\<close> is a union: \<^verbatim>\<open>QuadPart\<close> reads \<^verbatim>\<open>HighPart\<close> as the upper and
  \<^verbatim>\<open>LowPart\<close> as the lower 32 bits.\<close>

definition QuadPart :: "DWORD \<Rightarrow> DWORD \<Rightarrow> Uint64" where
  "QuadPart low high = push_bit 32 (ucast high) OR ucast low"

definition delta_1601_epoch_100ns :: Uint64 where
  "delta_1601_epoch_100ns = 11644473600 * 10000000"

text \<open>The cast \<^verbatim>\<open>(Sint64)\<close> of the quotient keeps its 64 bits; the result is a
  \<^typ>\<open>Sint64\<close>, whose value is \<^const>\<open>sint\<close> of these bits.\<close>

definition FileTimeToSDLTime :: "FILETIME \<Rightarrow> Sint64" where
  "FileTimeToSDLTime ft =
     (let large = QuadPart (dwLowDateTime ft) (dwHighDateTime ft)
      in if large = 0 then 0
         else ((large - delta_1601_epoch_100ns) div (SDL_NS_PER_SECOND div 100)))"

subsection \<open>The environment of the driver\<close>

text \<open>
  The native services the driver calls are outside the repository's file (Win32 and the
  SDL helpers for encoding and allocation). Their answers are parameters of the model:
  \<^item> \<open>os_malloc n\<close>: whether \<^verbatim>\<open>SDL_malloc(n)\<close> returns a buffer;
  \<^item> \<open>os_UTF8ToString\<close>, \<open>os_StringToUTF8\<close>: the converted string, or \<open>None\<close> for NULL;
  \<^item> \<open>os_FindFirstFileExW pattern\<close>: \<open>None\<close> for \<^verbatim>\<open>INVALID_HANDLE_VALUE\<close>, otherwise the
    name of the first entry and the names that the following calls of
    \<^verbatim>\<open>FindNextFileW\<close> on the handle yield, in order, before it returns 0;
  \<^item> \<open>os_GetFileAttributesExW path\<close>: \<open>Inl\<close> the value of \<^verbatim>\<open>GetLastError()\<close> when the call
    fails, \<open>Inr\<close> the attribute data when it succeeds;
  \<^item> the remaining calls: whether they succeed.
\<close>

record os =
  os_GetLogicalDrives :: DWORD
  os_malloc :: "nat \<Rightarrow> bool"
  os_UTF8ToString :: "string \<Rightarrow> wstring option"
  os_StringToUTF8 :: "wstring \<Rightarrow> string option"
  os_FindFirstFileExW :: "wstring \<Rightarrow> (wstring \<times> wstring list) option"
  os_GetFileAttributesExW :: "wstring \<Rightarrow> DWORD + WIN32_FILE_ATTRIBUTE_DATA"
  os_RemoveDirectoryW :: "wstring \<Rightarrow> bool"
  os_DeleteFileW :: "wstring \<Rightarrow> bool"
  os_MoveFileExW :: "wstring \<Rightarrow> wstring \<Rightarrow> DWORD \<Rightarrow> bool"
  os_CreateDirectoryW :: "wstring \<Rightarrow> bool"

text \<open>The heap buffers of the driver, named after the variables that hold them.\<close>

datatype buffer = pattern | wpattern | utf8fn | wpath | woldpath | wnewpath

text \<open>
  What a call does besides returning: the buffers it obtains and frees, the native calls
  it issues (with the entry a directory search yields, if any) and the invocations of
  the callback (its \<open>origdir\<close>, \<open>dirname\<close> and \<open>fname\<close> arguments and what it returned),
  logged in the order of execution.
\<close>

datatype event =
    Alloc buffer
  | Free buffer
  | GetLogicalDrives
  | FindFirstFileExW wstring "wstring option"
  | FindNextFileW "wstring option"
  | FindClose
  | GetFileAttributesExW wstring
  | RemoveDirectoryW wstring
  | DeleteFileW wstring
  | MoveFileExW wstring wstring DWORD
  | CreateDirectoryW wstring
  | Callback "string option" string string int

record 'u world =
  userdata :: 'u
  last_error :: "string option"
  trace :: "event list"

definition emit :: "event \<Rightarrow> 'u world \<Rightarrow> 'u world" where
  "emit e w = w\<lparr>trace := trace w @ [e]\<rparr>"

text \<open>Modelled from the spec: \<^verbatim>\<open>WIN_SetError\<close> (SDL_windows.c) is not in the source file. The
  spec's error reporter \<open>set_last_error(message) -> failure_sentinel\<close> records the message
  and returns the layer's universal failure code, -1.\<close>

definition WIN_SetError :: "string \<Rightarrow> 'u world \<Rightarrow> int \<times> 'u world" where
  "WIN_SetError msg w = (-1, w\<lparr>last_error := Some msg\<rparr>)"

text \<open>The callback \<^verbatim>\<open>cb(userdata, origdir, dirname, fname)\<close> reads and updates the user
  data and returns an \<^verbatim>\<open>int\<close>.\<close>

type_synonym 'u SDL_EnumerateDirectoryCallback =
  "'u \<Rightarrow> string option \<Rightarrow> string \<Rightarrow> string \<Rightarrow> int \<times> 'u"

definition call_cb ::
  "'u SDL_EnumerateDirectoryCallback \<Rightarrow> string \<Rightarrow> string \<Rightarrow> 'u world \<Rightarrow> int \<times> 'u world" where
  "call_cb cb dirname fname w =
     (let (r, u) = cb (userdata w) None dirname fname
      in (r, emit (Callback None dirname fname r) (w\<lparr>userdata := u\<rparr>)))"

subsection \<open>SDL_SYS_FSenumerate\<close>

text \<open>The loop over the drive letters:
  \<^verbatim>\<open>for (int i = 'A'; (retval == 1) && (i <= 'Z'); i++)\<close>.\<close>

function drive_loop ::
  "'u SDL_EnumerateDirectoryCallback \<Rightarrow> string \<Rightarrow> DWORD \<Rightarrow> int \<Rightarrow> int \<Rightarrow> 'u world
     \<Rightarrow> int \<times> 'u world" where
  "drive_loop cb dirname drives i retval w =
     (if retval = 1 \<and> i \<le> of_char (CHR ''Z'') then
        (if drives AND push_bit (nat (i - of_char (CHR ''A''))) 1 \<noteq> 0 then
           (let (r, w') = call_cb cb dirname [char_of i, CHR '':''] w
            in drive_loop cb dirname drives (i + 1) r w')
         else drive_loop cb dirname drives (i + 1) retval w)
      else (retval, w))"
  by pat_completeness auto
termination
  by (relation "measure (\<lambda>(cb, dirname, drives, i, retval, w). nat (91 - i))") auto

text \<open>The test that skips \<^verbatim>\<open>"."\<close> and \<^verbatim>\<open>".."\<close>.\<close>

definition is_dot_or_dotdot :: "wstring \<Rightarrow> bool" where
  "is_dot_or_dotdot fn =
     (wchar_at fn 0 = of_char (CHR ''.'') \<and>
      (wchar_at fn 1 = 0 \<or> (wchar_at fn 1 = of_char (CHR ''.'') \<and> wchar_at fn 2 = 0)))"

text \<open>The body of the \<^verbatim>\<open>do ... while\<close> loop for the entry \<open>fn\<close>; \<^verbatim>\<open>continue\<close> leaves
  \<open>retval\<close> as it is.\<close>

definition loop_body ::
  "os \<Rightarrow> 'u SDL_EnumerateDirectoryCallback \<Rightarrow> string \<Rightarrow> wstring \<Rightarrow> int \<Rightarrow> 'u world
     \<Rightarrow> int \<times> 'u world" where
  "loop_body env cb dirname fn retval w =
     (if is_dot_or_dotdot fn then (retval, w)
      else case os_StringToUTF8 env fn of
             None \<Rightarrow> (-1, w)
           | Some name \<Rightarrow>
               (let (r, w') = call_cb cb dirname name (emit (Alloc utf8fn) w)
                in (r, emit (Free utf8fn) w')))"

text \<open>The loop with its condition
  \<^verbatim>\<open>while ((retval == 1) && (FindNextFileW(dir, &entw) != 0))\<close>: \<open>fn\<close> is the entry in
  \<^verbatim>\<open>entw\<close>, \<open>rest\<close> the entries the search has not yielded yet.\<close>

fun find_loop ::
  "os \<Rightarrow> 'u SDL_EnumerateDirectoryCallback \<Rightarrow> string \<Rightarrow> wstring \<Rightarrow> wstring list \<Rightarrow> int
     \<Rightarrow> 'u world \<Rightarrow> int \<times> 'u world" where
  "find_loop env cb dirname fn [] retval w =
     (let (r, w') = loop_body env cb dirname fn retval w
      in if r = 1 then (r, emit (FindNextFileW None) w') else (r, w'))"
| "find_loop env cb dirname fn (e # es) retval w =
     (let (r, w') = loop_body env cb dirname fn retval w
      in if r = 1 then find_loop env cb dirname e es r (emit (FindNextFileW (Some e)) w')
         else (r, w'))"

definition SDL_SYS_FSenumerate ::
  "os \<Rightarrow> 'u SDL_EnumerateDirectoryCallback \<Rightarrow> string \<Rightarrow> string \<Rightarrow> 'u world
     \<Rightarrow> int \<times> 'u world" where
  "SDL_SYS_FSenumerate env cb fullpath dirname w =
     (if fullpath = [] then
        drive_loop cb dirname (os_GetLogicalDrives env) (of_char (CHR ''A'')) 1
          (emit GetLogicalDrives w)
      else if \<not> os_malloc env (length fullpath + 3) then (-1, w)
      else
        let w1 = emit (Alloc pattern) w in
        case os_UTF8ToString env (fullpath @ [CHR 0x5C, CHR ''*'']) of
          None \<Rightarrow> (-1, emit (Free pattern) w1)
        | Some wpat \<Rightarrow>
            (let w2 = emit (Free pattern) (emit (Alloc wpattern) w1) in
             case os_FindFirstFileExW env wpat of
               None \<Rightarrow>
                 WIN_SetError ''Failed to enumerate directory''
                   (emit (Free wpattern) (emit (FindFirstFileExW wpat None) w2))
             | Some (entw, rest) \<Rightarrow>
                 (let w3 = emit (Free wpattern) (emit (FindFirstFileExW wpat (Some entw)) w2);
                      (retval, w4) = find_loop env cb dirname entw rest 1 w3
                  in (retval, emit FindClose w4))))"

subsection \<open>SDL_SYS_FSremove\<close>

definition SDL_SYS_FSremove :: "os \<Rightarrow> string \<Rightarrow> 'u world \<Rightarrow> int \<times> 'u world" where
  "SDL_SYS_FSremove env fullpath w =
     (case os_UTF8ToString env fullpath of
        None \<Rightarrow> (-1, w)
      | Some wp \<Rightarrow>
          (let w1 = emit (GetFileAttributesExW wp) (emit (Alloc wpath) w) in
           case os_GetFileAttributesExW env wp of
             Inl err \<Rightarrow>
               if err = ERROR_FILE_NOT_FOUND then (0, w1)
               else WIN_SetError ''Couldn't get path's attributes'' w1
           | Inr info \<Rightarrow>
               (let isdir = dwFileAttributes info AND FILE_ATTRIBUTE_DIRECTORY;
                    rc = (if isdir \<noteq> 0 then os_RemoveDirectoryW env wp else os_DeleteFileW env wp);
                    w2 = emit (if isdir \<noteq> 0 then RemoveDirectoryW wp else DeleteFileW wp) w1;
                    w3 = emit (Free wpath) w2
                in if \<not> rc then WIN_SetError ''Couldn't remove path'' w3
                   else (0, w3))))"

subsection \<open>SDL_SYS_FSrename\<close>

definition SDL_SYS_FSrename :: "os \<Rightarrow> string \<Rightarrow> string \<Rightarrow> 'u world \<Rightarrow> int \<times> 'u world" where
  "SDL_SYS_FSrename env oldfullpath newfullpath w =
     (case os_UTF8ToString env oldfullpath of
        None \<Rightarrow> (-1, w)
      | Some wold \<Rightarrow>
          (let w1 = emit (Alloc woldpath) w in
           case os_UTF8ToString env newfullpath of
             None \<Rightarrow> (-1, emit (Free woldpath) w1)
           | Some wnew \<Rightarrow>
               (let w2 = emit (Alloc wnewpath) w1;
                    rc = os_MoveFileExW env wold wnew MOVEFILE_REPLACE_EXISTING;
                    w3 = emit (MoveFileExW wold wnew MOVEFILE_REPLACE_EXISTING) w2;
                    w4 = emit (Free woldpath) (emit (Free wnewpath) w3)
                in if \<not> rc then WIN_SetError ''Couldn't rename path'' w4
                   else (0, w4))))"

subsection \<open>SDL_SYS_FSmkdir\<close>

definition SDL_SYS_FSmkdir :: "os \<Rightarrow> string \<Rightarrow> 'u world \<Rightarrow> int \<times> 'u world" where
  "SDL_SYS_FSmkdir env fullpath w =
     (case os_UTF8ToString env fullpath of
        None \<Rightarrow> (-1, w)
      | Some wp \<Rightarrow>
          (let rc = os_CreateDirectoryW env wp;
               w1 = emit (Free wpath) (emit (CreateDirectoryW wp) (emit (Alloc wpath) w))
           in if \<not> rc then WIN_SetError ''Couldn't create directory'' w1
              else (0, w1)))"

subsection \<open>SDL_SYS_FSstat\<close>

text \<open>\<open>info\<close> is the caller's structure; the result carries it as the call leaves it.\<close>

definition SDL_SYS_FSstat ::
  "os \<Rightarrow> string \<Rightarrow> SDL_PathInfo \<Rightarrow> 'u world \<Rightarrow> int \<times> SDL_PathInfo \<times> 'u world" where
  "SDL_SYS_FSstat env fullpath info w =
     (case os_UTF8ToString env fullpath of
        None \<Rightarrow> (-1, info, w)
      | Some wp \<Rightarrow>
          (let w1 = emit (Free wpath) (emit (GetFileAttributesExW wp) (emit (Alloc wpath) w)) in
           case os_GetFileAttributesExW env wp of
             Inl err \<Rightarrow>
               (let (r, w2) = WIN_SetError ''Can't stat'' w1 in (r, info, w2))
           | Inr winstat \<Rightarrow>
               (let info1 =
                      (if dwFileAttributes winstat AND FILE_ATTRIBUTE_DIRECTORY \<noteq> 0 then
                         info\<lparr>info_type := SDL_PATHTYPE_DIRECTORY, info_size := 0\<rparr>
                       else if dwFileAttributes winstat AND
                               (FILE_ATTRIBUTE_OFFLINE OR FILE_ATTRIBUTE_DEVICE) \<noteq> 0 then
                         info\<lparr>info_type := SDL_PATHTYPE_OTHER,
                              info_size := push_bit 32 (ucast (nFileSizeHigh winstat))
                                             OR ucast (nFileSizeLow winstat)\<rparr>
                       else
                         info\<lparr>info_type := SDL_PATHTYPE_FILE,
                              info_size := push_bit 32 (ucast (nFileSizeHigh winstat))
                                             OR ucast (nFileSizeLow winstat)\<rparr>);
                    info2 = info1\<lparr>create_time := FileTimeToSDLTime (ftCreationTime winstat)\<rparr>;
                    info3 = info2\<lparr>modify_time := FileTimeToSDLTime (ftLastWriteTime winstat)\<rparr>;
                    info4 = info3\<lparr>access_time := FileTimeToSDLTime (ftLastAccessTime winstat)\<rparr>
                in (1, info4, w1))))"

subsection \<open>Reading a log\<close>

text \<open>The resources a log leaves held: each buffer obtained and not freed, and the search
  handle when a search was opened and not closed.\<close>

datatype resource = Buffer buffer | SearchHandle

fun held_after :: "resource list \<Rightarrow> event \<Rightarrow> resource list" where
  "held_after rs (Alloc b) = Buffer b # rs"
| "held_after rs (Free b) = remove1 (Buffer b) rs"
| "held_after rs (FindFirstFileExW p (Some e)) = SearchHandle # rs"
| "held_after rs FindClose = remove1 SearchHandle rs"
| "held_after rs _ = rs"

definition held :: "event list \<Rightarrow> resource list" where
  "held evs = foldl held_after [] evs"

text \<open>The callback invocations of a log: \<open>(dirname, fname)\<close> as delivered, and the values
  returned.\<close>

fun delivered :: "event list \<Rightarrow> (string option \<times> string \<times> string) list" where
  "delivered [] = []"
| "delivered (Callback origdir dirname fname r # evs) = (origdir, dirname, fname) # delivered evs"
| "delivered (e # evs) = delivered evs"

fun cb_results :: "event list \<Rightarrow> int list" where
  "cb_results [] = []"
| "cb_results (Callback origdir dirname fname r # evs) = r # cb_results evs"
| "cb_results (e # evs) = cb_results evs"

text \<open>The entries that the native search yielded to the driver.\<close>

fun found :: "event list \<Rightarrow> wstring list" where
  "found [] = []"
| "found (FindFirstFileExW p (Some e) # evs) = e # found evs"
| "found (FindNextFileW (Some e) # evs) = e # found evs"
| "found (e # evs) = found evs"

subsection \<open>The logs a loop can write\<close>

text \<open>
  The callback is the caller's code, so the properties of an enumeration are properties
  of every log that the loops can write, whatever the callback answers. The relations
  below describe these logs; each loop is shown to write one of them.

  \<open>body_run env dirname fn retval r evs\<close>: one execution of the loop body for the entry
  \<open>fn\<close>, entered with \<open>retval\<close>, leaves \<open>r\<close> in \<open>retval\<close> and writes \<open>evs\<close>.
\<close>

inductive body_run :: "os \<Rightarrow> string \<Rightarrow> wstring \<Rightarrow> int \<Rightarrow> int \<Rightarrow> event list \<Rightarrow> bool"
  for env :: os and dirname :: string where
  skipped: "is_dot_or_dotdot fn \<Longrightarrow> body_run env dirname fn retval retval []"
| unconverted:
    "\<not> is_dot_or_dotdot fn \<Longrightarrow> os_StringToUTF8 env fn = None
       \<Longrightarrow> body_run env dirname fn retval (- 1) []"
| called:
    "\<not> is_dot_or_dotdot fn \<Longrightarrow> os_StringToUTF8 env fn = Some name
       \<Longrightarrow> body_run env dirname fn retval r
             [Alloc utf8fn, Callback None dirname name r, Free utf8fn]"

text \<open>\<open>find_run env dirname fn rest retval ret evs\<close>: the \<^verbatim>\<open>do ... while\<close> loop entered with
  the entry \<open>fn\<close>, the entries \<open>rest\<close> still to come and \<open>retval\<close>, ends with \<open>ret\<close> and
  writes \<open>evs\<close>.\<close>

inductive find_run ::
  "os \<Rightarrow> string \<Rightarrow> wstring \<Rightarrow> wstring list \<Rightarrow> int \<Rightarrow> int \<Rightarrow> event list \<Rightarrow> bool"
  for env :: os and dirname :: string where
  stopped: "body_run env dirname fn retval r evs \<Longrightarrow> r \<noteq> 1
              \<Longrightarrow> find_run env dirname fn rest retval r evs"
| exhausted: "body_run env dirname fn retval 1 evs
              \<Longrightarrow> find_run env dirname fn [] retval 1 (evs @ [FindNextFileW None])"
| continued: "body_run env dirname fn retval 1 evs \<Longrightarrow> find_run env dirname e es 1 ret evs'
              \<Longrightarrow> find_run env dirname fn (e # es) retval ret
                    (evs @ FindNextFileW (Some e) # evs')"

text \<open>\<open>drive_run dirname drives i retval ret evs\<close>: the loop over the drive letters, entered
  with the letter \<open>i\<close> and \<open>retval\<close>, ends with \<open>ret\<close> and writes \<open>evs\<close>.\<close>

inductive drive_run :: "string \<Rightarrow> DWORD \<Rightarrow> int \<Rightarrow> int \<Rightarrow> int \<Rightarrow> event list \<Rightarrow> bool"
  for dirname :: string and drives :: DWORD where
  finished: "retval \<noteq> 1 \<or> of_char (CHR ''Z'') < i \<Longrightarrow> drive_run dirname drives i retval retval []"
| absent: "i \<le> of_char (CHR ''Z'')
             \<Longrightarrow> drives AND push_bit (nat (i - of_char (CHR ''A''))) 1 = 0
             \<Longrightarrow> drive_run dirname drives (i + 1) 1 ret evs
             \<Longrightarrow> drive_run dirname drives i 1 ret evs"
| present: "i \<le> of_char (CHR ''Z'')
             \<Longrightarrow> drives AND push_bit (nat (i - of_char (CHR ''A''))) 1 \<noteq> 0
             \<Longrightarrow> drive_run dirname drives (i + 1) r ret evs
             \<Longrightarrow> drive_run dirname drives i 1 ret
                   (Callback None dirname [char_of i, CHR '':''] r # evs)"

text \<open>\<open>enumerate_run env fullpath dirname ret evs\<close>: a call of \<^verbatim>\<open>SDL_SYS_FSenumerate\<close>
  returns \<open>ret\<close> and writes \<open>evs\<close>; one rule for each way through the function.\<close>

inductive enumerate_run :: "os \<Rightarrow> string \<Rightarrow> string \<Rightarrow> int \<Rightarrow> event list \<Rightarrow> bool"
  for env :: os and fullpath :: string and dirname :: string where
  root:
    "fullpath = []
       \<Longrightarrow> drive_run dirname (os_GetLogicalDrives env) (of_char (CHR ''A'')) 1 ret evs
       \<Longrightarrow> enumerate_run env fullpath dirname ret (GetLogicalDrives # evs)"
| no_memory:
    "fullpath \<noteq> [] \<Longrightarrow> \<not> os_malloc env (length fullpath + 3)
       \<Longrightarrow> enumerate_run env fullpath dirname (- 1) []"
| no_pattern:
    "fullpath \<noteq> [] \<Longrightarrow> os_malloc env (length fullpath + 3)
       \<Longrightarrow> os_UTF8ToString env (fullpath @ [CHR 0x5C, CHR ''*'']) = None
       \<Longrightarrow> enumerate_run env fullpath dirname (- 1) [Alloc pattern, Free pattern]"
| no_search:
    "fullpath \<noteq> [] \<Longrightarrow> os_malloc env (length fullpath + 3)
       \<Longrightarrow> os_UTF8ToString env (fullpath @ [CHR 0x5C, CHR ''*'']) = Some wpat
       \<Longrightarrow> os_FindFirstFileExW env wpat = None
       \<Longrightarrow> enumerate_run env fullpath dirname (- 1)
             [Alloc pattern, Alloc wpattern, Free pattern, FindFirstFileExW wpat None,
              Free wpattern]"
| searched:
    "fullpath \<noteq> [] \<Longrightarrow> os_malloc env (length fullpath + 3)
       \<Longrightarrow> os_UTF8ToString env (fullpath @ [CHR 0x5C, CHR ''*'']) = Some wpat
       \<Longrightarrow> os_FindFirstFileExW env wpat = Some (entw, rest)
       \<Longrightarrow> find_run env dirname entw rest 1 ret evs
       \<Longrightarrow> enumerate_run env fullpath dirname ret
             ([Alloc pattern, Alloc wpattern, Free pattern, FindFirstFileExW wpat (Some entw),
               Free wpattern] @ evs @ [FindClose])"

text \<open>The events that may follow the callback's request to stop: the release of the name
  buffer and of the search handle.\<close>

definition releases_only :: "event list \<Rightarrow> bool" where
  "releases_only evs = list_all (\<lambda>e. e = Free utf8fn \<or> e = FindClose) evs"

text \<open>\<open>stops_with ret evs\<close>: in the log \<open>evs\<close> the first callback result other than 1, if
  there is one, is \<open>ret\<close> and is followed by releases only.\<close>

fun stops_with :: "int \<Rightarrow> event list \<Rightarrow> bool" where
  "stops_with ret [] = True"
| "stops_with ret (Callback origdir dirname fname r # evs) =
     (if r = 1 then stops_with ret evs else ret = r \<and> releases_only evs)"
| "stops_with ret (e # evs) = stops_with ret evs"

text \<open>The names of the drives of a bitmask, in ascending order.\<close>

definition drive_names :: "DWORD \<Rightarrow> string list" where
  "drive_names drives =
     map (\<lambda>n. [char_of (of_char (CHR ''A'') + int n), CHR '':'']) (filter (bit drives) [0..<26])"

subsection \<open>A sample environment\<close>

text \<open>
  A machine with the drives A: and C:, on which \<^verbatim>\<open>dir\<close> is a directory with the entries
  \<^verbatim>\<open>a\<close> to \<^verbatim>\<open>e\<close>, \<^verbatim>\<open>odd\<close> a directory whose second entry has a name with no UTF-8 form,
  \<^verbatim>\<open>file\<close> a file of 5 bytes written one second after 1 January 1970, \<^verbatim>\<open>tape\<close> an
  offline file and \<^verbatim>\<open>locked\<close> a file that cannot be deleted; \<^verbatim>\<open>nodir\<close> does not exist, so
  that \<^verbatim>\<open>nodir\f\<close> has no parent, and nothing else exists. The encoding converters handle
  ASCII and fail on everything else.
\<close>

definition ascii_to_wide :: "string \<Rightarrow> wstring option" where
  "ascii_to_wide s = (if list_all (\<lambda>c. (of_char c :: nat) < 128) s then Some (map of_char s) else None)"

definition wide_to_ascii :: "wstring \<Rightarrow> string option" where
  "wide_to_ascii ws = (if list_all (\<lambda>c. c < 128) ws then Some (map (\<lambda>c. char_of (uint c)) ws) else None)"

definition wide :: "string \<Rightarrow> wstring" where
  "wide s = map of_char s"

definition sample_attributes :: "DWORD \<Rightarrow> WIN32_FILE_ATTRIBUTE_DATA" where
  "sample_attributes a =
     \<lparr>dwFileAttributes = a,
      ftCreationTime = \<lparr>dwLowDateTime = 0, dwHighDateTime = 0\<rparr>,
      ftLastAccessTime = \<lparr>dwLowDateTime = 1, dwHighDateTime = 0\<rparr>,
      ftLastWriteTime = \<lparr>dwLowDateTime = 0xD5D71680, dwHighDateTime = 0x19DB1DE\<rparr>,
      nFileSizeHigh = 0, nFileSizeLow = 5\<rparr>"

definition sample_os :: os where
  "sample_os =
     \<lparr>os_GetLogicalDrives = 5,
      os_malloc = (\<lambda>n. n < 1000),
      os_UTF8ToString = ascii_to_wide,
      os_StringToUTF8 = wide_to_ascii,
      os_FindFirstFileExW = (\<lambda>p.
         if p = wide ''dir'' @ [0x5C, 0x2A] then
           Some (wide ''.'', [wide ''..'', wide ''a'', wide ''b'', wide ''c'', wide ''d'', wide ''e''])
         else if p = wide ''odd'' @ [0x5C, 0x2A] then
           Some (wide ''.'', [wide ''..'', wide ''a'', [0xD800], wide ''b''])
         else None),
      os_GetFileAttributesExW = (\<lambda>p.
         if p = wide ''dir'' \<or> p = wide ''odd'' then Inr (sample_attributes 0x10)
         else if p = wide ''file'' \<or> p = wide ''locked'' then Inr (sample_attributes 0x20)
         else if p = wide ''tape'' then Inr (sample_attributes 0x1020)
         else if p = wide ''nodir'' @ [0x5C] @ wide ''f'' then Inl ERROR_PATH_NOT_FOUND
         else Inl ERROR_FILE_NOT_FOUND),
      os_RemoveDirectoryW = (\<lambda>p. False),
      os_DeleteFileW = (\<lambda>p. p = wide ''file''),
      os_MoveFileExW = (\<lambda>p q f. p = wide ''file''),
      os_CreateDirectoryW = (\<lambda>p. p = wide ''new'')\<rparr>"

text \<open>A callback that counts its invocations in the user data and asks to stop at the
  third; one that always continues; one that stops at once.\<close>

definition stop_at_third :: "nat SDL_EnumerateDirectoryCallback" where
  "stop_at_third u origdir dirname fname = (if u = 2 then 0 else 1, u + 1)"

definition keep_going :: "nat SDL_EnumerateDirectoryCallback" where
  "keep_going u origdir dirname fname = (1, u + 1)"

definition stop_at_once :: "nat SDL_EnumerateDirectoryCallback" where
  "stop_at_once u origdir dirname fname = (0, u + 1)"

definition fresh :: "nat world" where
  "fresh = \<lparr>userdata = 0, last_error = None, trace = []\<rparr>"

definition blank :: SDL_PathInfo where
  "blank = \<lparr>info_type = SDL_PATHTYPE_NONE, info_size = 0, create_time = 7, modify_time = 7,
             access_time = 7\<rparr>"

section \<open>Arithmetic of the time converter\<close>

lemma uint_delta: "uint delta_1601_epoch_100ns = 11644473600 * 10000000"
  by (simp add: delta_1601_epoch_100ns_def)

lemma ticks_per_second: "SDL_NS_PER_SECOND div 100 = (10000000 :: Uint64)"
  by (simp add: SDL_NS_PER_SECOND_def)

lemma QuadPart_disjoint: "push_bit 32 (ucast (high :: DWORD) :: Uint64) AND ucast (low :: DWORD) = 0"
  by (rule bit_eqI) (auto simp: bit_simps dest: bit_imp_le_length)

lemma uint_QuadPart: "uint (QuadPart low high) = uint high * 2 ^ 32 + uint low"
proof -
  have "QuadPart low high = push_bit 32 (ucast high) + ucast low"
    unfolding QuadPart_def using disjunctive_add_eq_or[OF QuadPart_disjoint, of high low] by simp
  then have q: "QuadPart low high = ucast high * 2 ^ 32 + ucast low"
    by (simp add: push_bit_eq_mult)
  have l: "uint (ucast low :: Uint64) = uint low" 
    by (simp add: uint_up_ucast is_up)
  have h: "uint (ucast high :: Uint64) = uint high" 
    by (simp add: uint_up_ucast is_up)
  have hb: "uint high < 2 ^ 32" using uint_lt2p[of high] by simp
  have lb: "uint low < 2 ^ 32" using uint_lt2p[of low] by simp
  have "uint high * 2 ^ 32 + uint low < 2 ^ 64" using hb lb by simp
  moreover have "0 \<le> uint high * 2 ^ 32 + uint low" by simp
  ultimately have "(uint high * 2 ^ 32 + uint low) mod 2 ^ 64 = uint high * 2 ^ 32 + uint low"
    by (simp only: mod_pos_pos_trivial)
  then show ?thesis
    by (simp add: q uint_word_ariths l h mod_simps)
qed

lemma mod_wrap_neg: "- m \<le> x \<Longrightarrow> x < 0 \<Longrightarrow> x mod m = x + m" for x m :: int
proof -
  assume a: "- m \<le> x" "x < 0"
  have "x mod m = (x + m) mod m" by simp
  also have "\<dots> = x + m" using a by (intro mod_pos_pos_trivial) simp_all
  finally show ?thesis .
qed

lemma sint_quot: "sint ((x :: Uint64) div 10000000) = uint x div 10000000"
proof -
  have "uint x < 2 ^ 64" using uint_lt2p[of x] by simp
  then have "uint x div 10000000 < 2 ^ 63" by simp
  moreover have "0 \<le> uint x div 10000000" by (simp add: pos_imp_zdiv_nonneg_iff)
  ultimately have "signed_take_bit 63 (uint x div 10000000) = uint x div 10000000"
    by (simp add: signed_take_bit_int_eq_self)
  then show ?thesis by (simp add: sint_uint uint_div)
qed

section \<open>The time converter (claims C4 and C10)\<close>

text \<open>
  What the converter computes. For every native timestamp: if the raw 64-bit value is
  zero the converter returns 0; otherwise it returns the quotient by \<open>10\<^sup>7\<close> of the raw
  value minus \<open>11644473600 \<times> 10\<^sup>7\<close>, the subtraction taken modulo \<open>2\<^sup>6\<^sup>4\<close>, and the signed
  reading of the result is that quotient itself. The arithmetic is exact, the result
  being the number of whole seconds since 1970, when the raw value is at least the
  offset.
\<close>

lemma FileTimeToSDLTime_value:
  "(QuadPart (dwLowDateTime ft) (dwHighDateTime ft) = 0 \<longrightarrow> FileTimeToSDLTime ft = 0) \<and>
   (QuadPart (dwLowDateTime ft) (dwHighDateTime ft) \<noteq> 0 \<longrightarrow>
      FileTimeToSDLTime ft =
        (QuadPart (dwLowDateTime ft) (dwHighDateTime ft) - 11644473600 * 10000000) div 10000000 \<and>
      sint (FileTimeToSDLTime ft) =
        ((uint (QuadPart (dwLowDateTime ft) (dwHighDateTime ft)) - 11644473600 * 10000000)
           mod 2 ^ 64) div 10000000) \<and>
   (11644473600 * 10000000 \<le> uint (QuadPart (dwLowDateTime ft) (dwHighDateTime ft)) \<longrightarrow>
      sint (FileTimeToSDLTime ft) =
        (uint (QuadPart (dwLowDateTime ft) (dwHighDateTime ft)) - 11644473600 * 10000000)
          div 10000000)"
proof -
  let ?t = "QuadPart (dwLowDateTime ft) (dwHighDateTime ft)"
  have d: "delta_1601_epoch_100ns = 11644473600 * 10000000"
    by (simp add: delta_1601_epoch_100ns_def)
  have sub: "uint (?t - 11644473600 * 10000000) = (uint ?t - 11644473600 * 10000000) mod 2 ^ 64"
    using uint_delta by (simp add: uint_word_ariths d)
  have zero: "?t = 0 \<Longrightarrow> FileTimeToSDLTime ft = 0"
    by (simp add: FileTimeToSDLTime_def)
  have nz: "?t \<noteq> 0 \<Longrightarrow> FileTimeToSDLTime ft = (?t - 11644473600 * 10000000) div 10000000"
    by (simp add: FileTimeToSDLTime_def ticks_per_second d)
  have val: "sint (FileTimeToSDLTime ft) =
      ((uint ?t - 11644473600 * 10000000) mod 2 ^ 64) div 10000000" if "?t \<noteq> 0"
    by (simp only: nz[OF that] sint_quot sub)
  have exact: "11644473600 * 10000000 \<le> uint ?t \<Longrightarrow>
      (uint ?t - 11644473600 * 10000000) mod 2 ^ 64 = uint ?t - 11644473600 * 10000000"
    using uint_lt2p[of ?t] by (simp add: mod_pos_pos_trivial)
  have z: "11644473600 * 10000000 \<le> uint ?t \<Longrightarrow> ?t \<noteq> 0" by auto
  have late: "11644473600 * 10000000 \<le> uint ?t \<Longrightarrow> sint (FileTimeToSDLTime ft) =
      (uint ?t - 11644473600 * 10000000) div 10000000"
    using val z exact by presburger
  show ?thesis
    using zero nz val late by blast
qed

text \<open>The zero timestamp, and the timestamp one second after the Unix epoch.\<close>

lemma FileTimeToSDLTime_value_examples:
  "FileTimeToSDLTime \<lparr>dwLowDateTime = 0, dwHighDateTime = 0\<rparr> = 0 \<and>
   sint (FileTimeToSDLTime \<lparr>dwLowDateTime = 0xD5D71680, dwHighDateTime = 0x19DB1DE\<rparr>) = 1"
proof -
  have z: "QuadPart 0 0 = 0" by (simp add: QuadPart_def)
  have q: "QuadPart 0xD5D71680 0x19DB1DE = 116444736010000000" by (simp add: QuadPart_def)
  have a: "FileTimeToSDLTime \<lparr>dwLowDateTime = 0, dwHighDateTime = 0\<rparr> = 0"
    using FileTimeToSDLTime_value [of "\<lparr>dwLowDateTime = 0, dwHighDateTime = 0\<rparr>"] z by simp
  have b: "sint (FileTimeToSDLTime \<lparr>dwLowDateTime = 0xD5D71680, dwHighDateTime = 0x19DB1DE\<rparr>) = 1"
    using FileTimeToSDLTime_value
      [of "\<lparr>dwLowDateTime = 0xD5D71680, dwHighDateTime = 0x19DB1DE\<rparr>", THEN conjunct2, THEN conjunct2]
      q by simp
  show ?thesis using a b by simp
qed

text \<open>
  Claim C10. For every nonzero tick value below the offset \<open>11644473600 \<times> 10\<^sup>7\<close> the
  subtraction wraps modulo \<open>2\<^sup>6\<^sup>4\<close> before the division: the result is the signed
  narrowing of \<open>((t - offset) mod 2\<^sup>6\<^sup>4) div 10\<^sup>7\<close>, a positive number, and not the
  negative number of seconds of the time before 1970.
\<close>

theorem FileTimeToSDLTime_wraps_before_1970:
  assumes "QuadPart (dwLowDateTime ft) (dwHighDateTime ft) \<noteq> 0"
    and "uint (QuadPart (dwLowDateTime ft) (dwHighDateTime ft)) < 11644473600 * 10000000"
  shows "FileTimeToSDLTime ft =
           word_of_int (((uint (QuadPart (dwLowDateTime ft) (dwHighDateTime ft))
                            - 11644473600 * 10000000) mod 2 ^ 64) div 10000000) \<and>
         sint (FileTimeToSDLTime ft) =
           ((uint (QuadPart (dwLowDateTime ft) (dwHighDateTime ft))
               - 11644473600 * 10000000) mod 2 ^ 64) div 10000000 \<and>
         sint (FileTimeToSDLTime ft) =
           (uint (QuadPart (dwLowDateTime ft) (dwHighDateTime ft))
               - 11644473600 * 10000000 + 2 ^ 64) div 10000000 \<and>
         0 < sint (FileTimeToSDLTime ft) \<and>
         (uint (QuadPart (dwLowDateTime ft) (dwHighDateTime ft)) - 11644473600 * 10000000)
            div 10000000 < 0"
proof -
  let ?t = "QuadPart (dwLowDateTime ft) (dwHighDateTime ft)"
  let ?q = "((uint ?t - 11644473600 * 10000000) mod 2 ^ 64) div 10000000"
  have d: "delta_1601_epoch_100ns = 11644473600 * 10000000"
    by (simp add: delta_1601_epoch_100ns_def)
  have sub: "uint (?t - 11644473600 * 10000000) = (uint ?t - 11644473600 * 10000000) mod 2 ^ 64"
    using uint_delta by (simp add: uint_word_ariths d)
  have nz: "FileTimeToSDLTime ft = (?t - 11644473600 * 10000000) div 10000000"
    using assms(1) by (simp add: FileTimeToSDLTime_def ticks_per_second d)
  have val: "sint (FileTimeToSDLTime ft) = ?q"
    by (simp only: nz sint_quot sub)
  have "uint (FileTimeToSDLTime ft) = ?q"
    by (simp only: nz uint_div sub) simp
  then have w: "FileTimeToSDLTime ft = word_of_int ?q"
    by (metis word_of_int_uint)
  have ge: "0 \<le> uint ?t" by simp
  have wrap: "(uint ?t - 11644473600 * 10000000) mod 2 ^ 64
                = uint ?t - 11644473600 * 10000000 + 2 ^ 64"
    using assms(2) ge by (intro mod_wrap_neg) simp_all
  have "(2 ^ 64 - 11644473600 * 10000000) div 10000000
          \<le> (uint ?t - 11644473600 * 10000000 + 2 ^ 64) div (10000000 :: int)"
    using ge by (intro zdiv_mono1) simp_all
  then have pos: "0 < ?q" by (simp only: wrap) simp
  have neg: "(uint ?t - 11644473600 * 10000000) div 10000000 < 0"
    using assms(2) by simp
  have val': "sint (FileTimeToSDLTime ft) =
           (uint ?t - 11644473600 * 10000000 + 2 ^ 64) div 10000000"
    by (simp only: val wrap)
  have pos': "0 < sint (FileTimeToSDLTime ft)"
    using pos by (simp only: val)
  show ?thesis
    by (intro conjI) (rule w val val' pos' neg)+
qed

text \<open>The first tick after 1 January 1601.\<close>

theorem FileTimeToSDLTime_wraps_before_1970_witness:
  "QuadPart 1 0 \<noteq> 0 \<and> uint (QuadPart 1 0) < 11644473600 * 10000000 \<and>
   sint (FileTimeToSDLTime \<lparr>dwLowDateTime = 1, dwHighDateTime = 0\<rparr>) = 1833029933770"
proof -
  have q: "QuadPart 1 0 = 1" by (simp add: QuadPart_def)
  have a: "QuadPart (dwLowDateTime \<lparr>dwLowDateTime = 1, dwHighDateTime = 0\<rparr>)
             (dwHighDateTime \<lparr>dwLowDateTime = 1, dwHighDateTime = 0\<rparr>) \<noteq> 0"
    by (simp add: q)
  have b: "uint (QuadPart (dwLowDateTime \<lparr>dwLowDateTime = 1, dwHighDateTime = 0\<rparr>)
             (dwHighDateTime \<lparr>dwLowDateTime = 1, dwHighDateTime = 0\<rparr>)) < 11644473600 * 10000000"
    by (simp add: q)
  have "sint (FileTimeToSDLTime \<lparr>dwLowDateTime = 1, dwHighDateTime = 0\<rparr>) = 1833029933770"
    using FileTimeToSDLTime_wraps_before_1970 [OF a b, THEN conjunct2, THEN conjunct2, THEN conjunct1]
    by (simp add: q)
  then show ?thesis by (simp add: q)
qed

text \<open>
  Claim C4 says that the converter translates every nonzero timestamp to the Unix epoch
  with no overflow in the intermediate arithmetic. For a time before 1970 the unsigned
  subtraction of the offset wraps. At 23:59:59 on 31 December 1969 (the offset less
  \<open>10\<^sup>7\<close> ticks) the difference computed is not the difference of the operands, and the
  converter returns 1844674407369 where the translation is \<open>-1\<close>; at the first tick
  after 1 January 1601 it returns 1833029933770 where the translation is
  \<open>-11644473600\<close>.
\<close>

theorem FileTimeToSDLTime_before_1970_overflows:
  "uint (QuadPart 0xD4A5E980 0x19DB1DE) = 11644473600 * 10000000 - 10000000 \<and>
   sint (FileTimeToSDLTime \<lparr>dwLowDateTime = 0xD4A5E980, dwHighDateTime = 0x19DB1DE\<rparr>)
     = 1844674407369 \<and>
   (uint (QuadPart 0xD4A5E980 0x19DB1DE) - 11644473600 * 10000000) div 10000000 = - 1 \<and>
   uint (QuadPart 0xD4A5E980 0x19DB1DE - delta_1601_epoch_100ns)
     \<noteq> uint (QuadPart 0xD4A5E980 0x19DB1DE) - uint delta_1601_epoch_100ns \<and>
   sint (FileTimeToSDLTime \<lparr>dwLowDateTime = 1, dwHighDateTime = 0\<rparr>) = 1833029933770 \<and>
   (uint (QuadPart 1 0) - 11644473600 * 10000000) div 10000000 = - 11644473600 \<and>
   uint (QuadPart 1 0 - delta_1601_epoch_100ns)
     \<noteq> uint (QuadPart 1 0) - uint delta_1601_epoch_100ns"
  by (simp add: FileTimeToSDLTime_def QuadPart_def delta_1601_epoch_100ns_def SDL_NS_PER_SECOND_def)

section \<open>Attribute bits\<close>

lemma directory_bit: "(a AND FILE_ATTRIBUTE_DIRECTORY \<noteq> 0) = bit a 4" for a :: DWORD
  using and_exp_eq_0_iff_not_bit[of a 4] by (simp add: FILE_ATTRIBUTE_DIRECTORY_def)

lemma offline_device_bits:
  "(a AND (FILE_ATTRIBUTE_OFFLINE OR FILE_ATTRIBUTE_DEVICE) \<noteq> 0) = (bit a 12 \<or> bit a 6)"
  for a :: DWORD
proof -
  have "a AND (2 ^ 12 OR 2 ^ 6) = (a AND 2 ^ 12) OR (a AND 2 ^ 6)"
    by (rule bit.conj_disj_distrib)
  then have "(a AND (2 ^ 12 OR 2 ^ 6) = 0) = (\<not> bit a 12 \<and> \<not> bit a 6)"
    by (simp only: or_eq_0_iff and_exp_eq_0_iff_not_bit)
  then show ?thesis
    by (simp add: FILE_ATTRIBUTE_OFFLINE_def FILE_ATTRIBUTE_DEVICE_def)
qed

section \<open>Remove (claims C2 and C1)\<close>

text \<open>
  Claim C2. When the attribute query fails with \<^verbatim>\<open>ERROR_FILE_NOT_FOUND\<close> (the leaf does
  not exist), remove returns 0 and reports no error; when it fails with
  \<^verbatim>\<open>ERROR_PATH_NOT_FOUND\<close> (an ancestor does not exist), remove returns the failure code
  -1 and records the error.
\<close>

theorem SDL_SYS_FSremove_missing_leaf_or_ancestor:
  assumes "os_UTF8ToString env fullpath = Some wp"
  shows "(os_GetFileAttributesExW env wp = Inl ERROR_FILE_NOT_FOUND \<longrightarrow>
            fst (SDL_SYS_FSremove env fullpath w) = 0 \<and>
            last_error (snd (SDL_SYS_FSremove env fullpath w)) = last_error w) \<and>
         (os_GetFileAttributesExW env wp = Inl ERROR_PATH_NOT_FOUND \<longrightarrow>
            fst (SDL_SYS_FSremove env fullpath w) = - 1 \<and>
            last_error (snd (SDL_SYS_FSremove env fullpath w)) =
              Some ''Couldn't get path's attributes'')"
  using assms
  by (simp add: SDL_SYS_FSremove_def WIN_SetError_def emit_def ERROR_FILE_NOT_FOUND_def
      ERROR_PATH_NOT_FOUND_def)

text \<open>A missing leaf and a missing parent in the sample environment.\<close>

theorem SDL_SYS_FSremove_missing_leaf_or_ancestor_witness:
  "fst (SDL_SYS_FSremove sample_os ''gone'' fresh) = 0 \<and>
   fst (SDL_SYS_FSremove sample_os (''nodir'' @ [CHR 0x5C] @ ''f'') fresh) = - 1"
proof -
  have a: "os_UTF8ToString sample_os ''gone'' = Some (wide ''gone'')"
    by (simp add: sample_os_def ascii_to_wide_def wide_def)
  have b: "os_GetFileAttributesExW sample_os (wide ''gone'') = Inl ERROR_FILE_NOT_FOUND"
    by (simp add: sample_os_def wide_def)
  have c: "os_UTF8ToString sample_os (''nodir'' @ [CHR 0x5C] @ ''f'')
             = Some (wide (''nodir'' @ [CHR 0x5C] @ ''f''))"
    by (simp add: sample_os_def ascii_to_wide_def wide_def)
  have d: "os_GetFileAttributesExW sample_os (wide (''nodir'' @ [CHR 0x5C] @ ''f''))
             = Inl ERROR_PATH_NOT_FOUND"
    by (simp add: sample_os_def wide_def)
  show ?thesis
    using SDL_SYS_FSremove_missing_leaf_or_ancestor [OF a, of fresh]
      SDL_SYS_FSremove_missing_leaf_or_ancestor [OF c, of fresh] b d
    by simp
qed

text \<open>
  Claim C1 says that remove releases its converted wide path on the return for a missing
  path and on the return for a failed attribute query. On both returns the log of the
  call ends after the attribute query and the buffer \<open>wpath\<close> is still held; only the path
  through the native removal frees it.
\<close>

theorem SDL_SYS_FSremove_keeps_wpath:
  "SDL_SYS_FSremove sample_os ''gone'' fresh =
     (0, fresh\<lparr>trace := [Alloc wpath, GetFileAttributesExW (wide ''gone'')]\<rparr>) \<and>
   held [Alloc wpath, GetFileAttributesExW (wide ''gone'')] = [Buffer wpath] \<and>
   held (trace (snd (SDL_SYS_FSremove sample_os (''nodir'' @ [CHR 0x5C] @ ''f'') fresh)))
     = [Buffer wpath] \<and>
   held (trace (snd (SDL_SYS_FSremove sample_os ''file'' fresh))) = []"
  by (simp add: SDL_SYS_FSremove_def sample_os_def ascii_to_wide_def wide_def emit_def fresh_def
      ERROR_FILE_NOT_FOUND_def ERROR_PATH_NOT_FOUND_def WIN_SetError_def held_def
      sample_attributes_def FILE_ATTRIBUTE_DIRECTORY_def)


section \<open>Rename (claim C8)\<close>

text \<open>
  Claim C8. Each path is converted by its own call of the converter. When the old path
  does not convert, rename returns -1 and has done nothing. When the old path converts
  and the new one does not, rename returns -1 after freeing the converted old path,
  without a native call. When both convert, the call issues exactly one native move,
  with the flag \<^verbatim>\<open>MOVEFILE_REPLACE_EXISTING\<close>, and frees both buffers.
\<close>

theorem SDL_SYS_FSrename_converts_then_moves:
  "(os_UTF8ToString env oldfullpath = None \<longrightarrow>
      SDL_SYS_FSrename env oldfullpath newfullpath w = (- 1, w)) \<and>
   (os_UTF8ToString env oldfullpath = Some wold \<and> os_UTF8ToString env newfullpath = None \<longrightarrow>
      SDL_SYS_FSrename env oldfullpath newfullpath w =
        (- 1, w\<lparr>trace := trace w @ [Alloc woldpath, Free woldpath]\<rparr>) \<and>
      held [Alloc woldpath, Free woldpath] = []) \<and>
   (os_UTF8ToString env oldfullpath = Some wold \<and> os_UTF8ToString env newfullpath = Some wnew \<longrightarrow>
      trace (snd (SDL_SYS_FSrename env oldfullpath newfullpath w)) =
        trace w @ [Alloc woldpath, Alloc wnewpath,
                   MoveFileExW wold wnew MOVEFILE_REPLACE_EXISTING,
                   Free wnewpath, Free woldpath] \<and>
      fst (SDL_SYS_FSrename env oldfullpath newfullpath w) =
        (if os_MoveFileExW env wold wnew MOVEFILE_REPLACE_EXISTING then 0 else - 1) \<and>
      MOVEFILE_REPLACE_EXISTING = 1)"
  by (simp add: SDL_SYS_FSrename_def emit_def WIN_SetError_def held_def
      MOVEFILE_REPLACE_EXISTING_def)

text \<open>A path that does not convert, on either side, and a rename that succeeds.\<close>

theorem SDL_SYS_FSrename_converts_then_moves_witness:
  "SDL_SYS_FSrename sample_os [CHR 0xFF] ''x'' fresh = (- 1, fresh) \<and>
   SDL_SYS_FSrename sample_os ''file'' [CHR 0xFF] fresh =
     (- 1, fresh\<lparr>trace := [Alloc woldpath, Free woldpath]\<rparr>) \<and>
   trace (snd (SDL_SYS_FSrename sample_os ''file'' ''x'' fresh)) =
     [Alloc woldpath, Alloc wnewpath, MoveFileExW (wide ''file'') (wide ''x'') 1,
      Free wnewpath, Free woldpath] \<and>
   fst (SDL_SYS_FSrename sample_os ''file'' ''x'' fresh) = 0"
proof -
  have a: "os_UTF8ToString sample_os [CHR 0xFF] = None"
    by (simp add: sample_os_def ascii_to_wide_def)
  have b: "os_UTF8ToString sample_os ''file'' = Some (wide ''file'')"
    by (simp add: sample_os_def ascii_to_wide_def wide_def)
  have c: "os_UTF8ToString sample_os ''x'' = Some (wide ''x'')"
    by (simp add: sample_os_def ascii_to_wide_def wide_def)
  have d: "os_MoveFileExW sample_os (wide ''file'') (wide ''x'') MOVEFILE_REPLACE_EXISTING"
    by (simp add: sample_os_def)
  have e: "trace fresh = []" by (simp add: fresh_def)
  have 1: "SDL_SYS_FSrename sample_os [CHR 0xFF] ''x'' fresh = (- 1, fresh)"
    using SDL_SYS_FSrename_converts_then_moves
      [of sample_os "[CHR 0xFF]" "''x''" fresh, THEN conjunct1] a by simp
  have 2: "SDL_SYS_FSrename sample_os ''file'' [CHR 0xFF] fresh =
     (- 1, fresh\<lparr>trace := [Alloc woldpath, Free woldpath]\<rparr>)"
    using SDL_SYS_FSrename_converts_then_moves
      [of sample_os "''file''" "[CHR 0xFF]" fresh "wide ''file''", THEN conjunct2, THEN conjunct1]
      a b e by simp
  have 3: "trace (snd (SDL_SYS_FSrename sample_os ''file'' ''x'' fresh)) =
     [Alloc woldpath, Alloc wnewpath, MoveFileExW (wide ''file'') (wide ''x'') 1,
      Free wnewpath, Free woldpath] \<and>
   fst (SDL_SYS_FSrename sample_os ''file'' ''x'' fresh) = 0"
    using SDL_SYS_FSrename_converts_then_moves
      [of sample_os "''file''" "''x''" fresh "wide ''file''" "wide ''x''", THEN conjunct2, THEN conjunct2]
      b c d e by simp
  show ?thesis using 1 2 3 by simp
qed

section \<open>Enumeration (claims C3, C6, C7 and C9)\<close>

subsection \<open>Every loop writes one of its logs\<close>

lemma loop_body_run:
  assumes "loop_body env cb dirname fn retval w = (r, w')"
  shows "\<exists>evs. trace w' = trace w @ evs \<and> last_error w' = last_error w \<and>
               body_run env dirname fn retval r evs"
proof (cases "is_dot_or_dotdot fn")
  case True
  then show ?thesis using assms by (auto simp: loop_body_def intro: body_run.skipped)
next
  case False
  show ?thesis
  proof (cases "os_StringToUTF8 env fn")
    case None
    then show ?thesis using assms False by (auto simp: loop_body_def intro: body_run.unconverted)
  next
    case (Some name)
    obtain x u where c: "cb (userdata w) None dirname name = (x, u)" by fastforce
    have "trace w' = trace w @ [Alloc utf8fn, Callback None dirname name r, Free utf8fn]"
      and "last_error w' = last_error w"
      using assms False Some c by (auto simp: loop_body_def call_cb_def emit_def)
    then show ?thesis using body_run.called [OF False Some] by blast
  qed
qed

lemma find_loop_run:
  "find_loop env cb dirname fn rest retval w = (ret, w')
     \<Longrightarrow> \<exists>evs. trace w' = trace w @ evs \<and> last_error w' = last_error w \<and>
               find_run env dirname fn rest retval ret evs"
proof (induction rest arbitrary: fn retval w)
  case Nil
  obtain r w1 where b: "loop_body env cb dirname fn retval w = (r, w1)" by fastforce
  from loop_body_run [OF b] obtain evs where
    e: "trace w1 = trace w @ evs" "last_error w1 = last_error w" "body_run env dirname fn retval r evs"
    by blast
  show ?case
  proof (cases "r = 1")
    case True
    then have "ret = 1" "w' = emit (FindNextFileW None) w1" using Nil b by auto
    then show ?thesis using e True find_run.exhausted [of env dirname fn retval evs]
      by (auto simp: emit_def)
  next
    case False
    then have "ret = r" "w' = w1" using Nil b by auto
    then show ?thesis using e False find_run.stopped by blast
  qed
next
  case (Cons e es)
  obtain r w1 where b: "loop_body env cb dirname fn retval w = (r, w1)" by fastforce
  from loop_body_run [OF b] obtain evs where
    e: "trace w1 = trace w @ evs" "last_error w1 = last_error w" "body_run env dirname fn retval r evs"
    by blast
  show ?case
  proof (cases "r = 1")
    case True
    then have "find_loop env cb dirname e es 1 (emit (FindNextFileW (Some e)) w1) = (ret, w')"
      using Cons.prems b by auto
    from Cons.IH [OF this] obtain evs' where
      r: "trace w' = trace (emit (FindNextFileW (Some e)) w1) @ evs'"
         "last_error w' = last_error (emit (FindNextFileW (Some e)) w1)"
         "find_run env dirname e es 1 ret evs'"
      by blast
    have "trace w' = trace w @ (evs @ FindNextFileW (Some e) # evs')"
      using r(1) e(1) by (simp add: emit_def)
    moreover have "last_error w' = last_error w" using r(2) e(2) by (simp add: emit_def)
    moreover have "find_run env dirname fn (e # es) retval ret (evs @ FindNextFileW (Some e) # evs')"
      using find_run.continued e(3) r(3) True by blast
    ultimately show ?thesis by blast
  next
    case False
    then have "ret = r" "w' = w1" using Cons.prems b by auto
    then show ?thesis using e False find_run.stopped by blast
  qed
qed

lemma drive_loop_run:
  "drive_loop cb dirname drives i retval w = (ret, w')
     \<Longrightarrow> \<exists>evs. trace w' = trace w @ evs \<and> last_error w' = last_error w \<and>
               drive_run dirname drives i retval ret evs"
proof (induction cb dirname drives i retval w rule: drive_loop.induct)
  case (1 cb dirname drives i retval w)
  show ?case
  proof (cases "retval = 1 \<and> i \<le> of_char (CHR ''Z'')")
    case False
    then have "ret = retval" "w' = w" using "1.prems" by (auto simp: drive_loop.simps [of _ _ _ i])
    then show ?thesis using False drive_run.finished [of retval i dirname drives] by auto
  next
    case True
    show ?thesis
    proof (cases "drives AND push_bit (nat (i - of_char (CHR ''A''))) 1 \<noteq> 0")
      case present: True
      obtain r w1 where c: "call_cb cb dirname [char_of i, CHR '':''] w = (r, w1)" by fastforce
      then have w1: "trace w1 = trace w @ [Callback None dirname [char_of i, CHR '':''] r]"
          "last_error w1 = last_error w"
        by (auto simp: call_cb_def emit_def split: prod.splits)
      have "drive_loop cb dirname drives (i + 1) r w1 = (ret, w')"
        using "1.prems" True present c by (simp add: drive_loop.simps [of _ _ _ i])
      from "1.IH"(1) [OF True present c [symmetric] refl this] obtain evs where
        "trace w' = trace w1 @ evs" "last_error w' = last_error w1"
        "drive_run dirname drives (i + 1) r ret evs" by blast
      then show ?thesis using w1 True present drive_run.present [of i drives dirname r ret evs]
        by auto
    next
      case absent: False
      have "drive_loop cb dirname drives (i + 1) retval w = (ret, w')"
        using "1.prems" True absent by (simp add: drive_loop.simps [of _ _ _ i])
      from "1.IH"(2) [OF True absent this] obtain evs where
        "trace w' = trace w @ evs" "last_error w' = last_error w"
        "drive_run dirname drives (i + 1) retval ret evs" by blast
      then show ?thesis using True absent drive_run.absent [of i drives dirname ret evs]
        by auto
    qed
  qed
qed


lemma SDL_SYS_FSenumerate_run:
  assumes "SDL_SYS_FSenumerate env cb fullpath dirname w = (ret, w')"
  shows "\<exists>evs. trace w' = trace w @ evs \<and> enumerate_run env fullpath dirname ret evs"
proof (cases "fullpath = []")
  case True
  then have "drive_loop cb dirname (os_GetLogicalDrives env) (of_char (CHR ''A'')) 1
               (emit GetLogicalDrives w) = (ret, w')"
    using assms by (simp add: SDL_SYS_FSenumerate_def)
  from drive_loop_run [OF this] obtain evs where
    "trace w' = trace (emit GetLogicalDrives w) @ evs"
    "drive_run dirname (os_GetLogicalDrives env) (of_char (CHR ''A'')) 1 ret evs"
    by blast
  then show ?thesis using enumerate_run.root [OF True] by (fastforce simp: emit_def)
next
  case path: False
  show ?thesis
  proof (cases "os_malloc env (length fullpath + 3)")
    case False
    then have "ret = - 1" "w' = w" using assms path by (auto simp: SDL_SYS_FSenumerate_def)
    then show ?thesis using enumerate_run.no_memory [OF path False] by auto
  next
    case mem: True
    show ?thesis
    proof (cases "os_UTF8ToString env (fullpath @ [CHR 0x5C, CHR ''*''])")
      case None
      then have "ret = - 1" "trace w' = trace w @ [Alloc pattern, Free pattern]"
        using assms path mem by (auto simp: SDL_SYS_FSenumerate_def emit_def)
      then show ?thesis using enumerate_run.no_pattern [OF path mem None] by auto
    next
      case (Some wpat)
      show ?thesis
      proof (cases "os_FindFirstFileExW env wpat")
        case None
        then have "ret = - 1"
          "trace w' = trace w @ [Alloc pattern, Alloc wpattern, Free pattern,
             FindFirstFileExW wpat None, Free wpattern]"
          using assms path mem Some
          by (auto simp: SDL_SYS_FSenumerate_def emit_def WIN_SetError_def)
        then show ?thesis using enumerate_run.no_search [OF path mem Some None] by auto
      next
        case found: (Some first)
        obtain entw rest where first: "first = (entw, rest)" by (cases first)
        let ?w3 = "emit (Free wpattern) (emit (FindFirstFileExW wpat (Some entw))
                     (emit (Free pattern) (emit (Alloc wpattern) (emit (Alloc pattern) w))))"
        obtain r w4 where l: "find_loop env cb dirname entw rest 1 ?w3 = (r, w4)" by fastforce
        then have res: "ret = r" "w' = emit FindClose w4"
          using assms path mem Some found first
          by (auto simp: SDL_SYS_FSenumerate_def Let_def)
        from find_loop_run [OF l] obtain evs where
          e: "trace w4 = trace ?w3 @ evs" "find_run env dirname entw rest 1 r evs" by blast
        have "trace w' = trace w @ ([Alloc pattern, Alloc wpattern, Free pattern,
                FindFirstFileExW wpat (Some entw), Free wpattern] @ evs @ [FindClose])"
          using res e(1) by (simp add: emit_def)
        moreover have "enumerate_run env fullpath dirname ret
             ([Alloc pattern, Alloc wpattern, Free pattern, FindFirstFileExW wpat (Some entw),
               Free wpattern] @ evs @ [FindClose])"
          using enumerate_run.searched [OF path mem Some] found first e(2) res(1) by blast
        ultimately show ?thesis by blast
      qed
    qed
  qed
qed


subsection \<open>Stopping at the callback's request\<close>

lemma delivered_append [simp]: "delivered (xs @ ys) = delivered xs @ delivered ys"
  by (induction xs rule: delivered.induct) simp_all

lemma cb_results_append [simp]: "cb_results (xs @ ys) = cb_results xs @ cb_results ys"
  by (induction xs rule: cb_results.induct) simp_all

lemma found_append [simp]: "found (xs @ ys) = found xs @ found ys"
  by (induction xs rule: found.induct) simp_all

lemma releases_only_append [simp]:
  "releases_only (xs @ ys) = (releases_only xs \<and> releases_only ys)"
  by (simp add: releases_only_def)

lemma releases_only_no_callback: "releases_only evs \<Longrightarrow> cb_results evs = []"
  by (induction evs rule: cb_results.induct) (simp_all add: releases_only_def)

lemma stops_with_releases: "releases_only evs \<Longrightarrow> stops_with ret evs"
  by (induction ret evs rule: stops_with.induct) (simp_all add: releases_only_def)

lemma stops_with_append_releases:
  "stops_with ret xs \<Longrightarrow> releases_only ys \<Longrightarrow> stops_with ret (xs @ ys)"
  by (induction ret xs rule: stops_with.induct) (simp_all add: stops_with_releases)

lemma stops_with_append:
  "\<forall>r\<in>set (cb_results xs). r = 1 \<Longrightarrow> stops_with ret (xs @ ys) = stops_with ret ys"
  by (induction ret xs rule: stops_with.induct) simp_all

lemma stops_with_split:
  "stops_with ret (pre @ Callback origdir dirname fname r # post) \<Longrightarrow> r \<noteq> 1
     \<Longrightarrow> ret = r \<and> releases_only post \<and> (\<forall>x\<in>set (cb_results pre). x = 1)"
proof (induction ret pre rule: stops_with.induct)
  case (1 ret)
  then show ?case by simp
next
  case (2 ret origdir' dirname' fname' r' evs)
  show ?case
  proof (cases "r' = 1")
    case True
    then show ?thesis using 2 by simp
  next
    case False
    then have "releases_only (evs @ Callback origdir dirname fname r # post)" using 2 by simp
    then have False by (simp add: releases_only_def)
    then show ?thesis ..
  qed
qed simp_all

lemma body_run_stops: "body_run env dirname fn retval r evs \<Longrightarrow> stops_with r evs"
  by (induction rule: body_run.induct) (simp_all add: releases_only_def)

lemma body_run_results:
  "body_run env dirname fn retval r evs \<Longrightarrow> r = 1 \<Longrightarrow> \<forall>x\<in>set (cb_results evs). x = 1"
  by (induction rule: body_run.induct) simp_all

lemma find_run_stops: "find_run env dirname fn rest retval ret evs \<Longrightarrow> stops_with ret evs"
proof (induction rule: find_run.induct)
  case (stopped fn retval r evs rest)
  then show ?case by (simp add: body_run_stops)
next
  case (exhausted fn retval evs)
  then show ?case using body_run_results [OF exhausted] by (simp add: stops_with_append)
next
  case (continued fn retval evs e es ret evs')
  then show ?case using body_run_results [OF continued(1)] by (simp add: stops_with_append)
qed

lemma drive_run_stops: "drive_run dirname drives i retval ret evs \<Longrightarrow> stops_with ret evs"
proof (induction rule: drive_run.induct)
  case (present i r ret evs)
  show ?case
  proof (cases "r = 1")
    case True
    then show ?thesis using present by simp
  next
    case False
    from present(3) False have "ret = r \<and> evs = []"
      by (cases rule: drive_run.cases) auto
    then show ?thesis using False by (simp add: releases_only_def)
  qed
qed simp_all

lemma enumerate_run_stops: "enumerate_run env fullpath dirname ret evs \<Longrightarrow> stops_with ret evs"
proof (induction rule: enumerate_run.induct)
  case (root ret evs)
  then show ?case by (simp add: drive_run_stops)
next
  case (searched wpat entw rest ret evs)
  have "stops_with ret (evs @ [FindClose])"
    using find_run_stops [OF searched(5)] by (intro stops_with_append_releases) (simp_all add: releases_only_def)
  then show ?case by simp
qed simp_all

text \<open>
  Claim C3. In the log of an enumeration, a callback invocation that returned a value
  other than 1 is followed by no native next-entry call and by no callback invocation,
  and the value it returned is the value of the enumeration. So the callbacks invoked
  are those before it and itself, and all of those before it returned 1.
\<close>

theorem SDL_SYS_FSenumerate_stops_at_request:
  assumes "SDL_SYS_FSenumerate env cb fullpath dirname w = (ret, w')"
    and "trace w' = trace w @ pre @ Callback origdir dname fname r # post"
    and "r \<noteq> 1"
  shows "ret = r \<and>
         (\<forall>e\<in>set post. (\<forall>origdir' dname' fname' r'. e \<noteq> Callback origdir' dname' fname' r') \<and>
                        (\<forall>entry. e \<noteq> FindNextFileW entry)) \<and>
         cb_results (pre @ Callback origdir dname fname r # post) = cb_results pre @ [r] \<and>
         (\<forall>x\<in>set (cb_results pre). x = 1)"
proof -
  from SDL_SYS_FSenumerate_run [OF assms(1)] obtain evs where
    e: "trace w' = trace w @ evs" "enumerate_run env fullpath dirname ret evs" by blast
  then have "evs = pre @ Callback origdir dname fname r # post" using assms(2) by simp
  then have "stops_with ret (pre @ Callback origdir dname fname r # post)"
    using enumerate_run_stops [OF e(2)] by simp
  from stops_with_split [OF this assms(3)] have
    s: "ret = r" "releases_only post" "\<forall>x\<in>set (cb_results pre). x = 1" by auto
  have "\<forall>e\<in>set post. (\<forall>origdir' dname' fname' r'. e \<noteq> Callback origdir' dname' fname' r') \<and>
                        (\<forall>entry. e \<noteq> FindNextFileW entry)"
    using s(2) by (auto simp: releases_only_def list_all_iff)
  moreover have "cb_results (pre @ Callback origdir dname fname r # post) = cb_results pre @ [r]"
    using releases_only_no_callback [OF s(2)] by simp
  ultimately show ?thesis using s(1) s(3) by blast
qed


lemmas sample_defs = SDL_SYS_FSenumerate_def sample_os_def ascii_to_wide_def wide_to_ascii_def
  wide_def emit_def fresh_def loop_body_def call_cb_def is_dot_or_dotdot_def wchar_at_def
  WIN_SetError_def char_of_def

lemma dir_stop_at_third:
  "SDL_SYS_FSenumerate sample_os stop_at_third ''dir'' ''logical'' fresh =
  (0, \<lparr>userdata = 3, last_error = None,
        trace =
          [Alloc pattern, Alloc wpattern, Free pattern,
           FindFirstFileExW (wide ''dir'' @ [0x5C, 0x2A]) (Some (wide ''.'')),
           Free wpattern, FindNextFileW (Some (wide ''..'')),
           FindNextFileW (Some (wide ''a'')), Alloc utf8fn,
           Callback None ''logical'' ''a'' 1, Free utf8fn,
           FindNextFileW (Some (wide ''b'')), Alloc utf8fn,
           Callback None ''logical'' ''b'' 1, Free utf8fn,
           FindNextFileW (Some (wide ''c'')), Alloc utf8fn,
           Callback None ''logical'' ''c'' 0, Free utf8fn, FindClose]\<rparr>)"
  by (simp add: sample_defs stop_at_third_def)

text \<open>The sample environment: the directory \<^verbatim>\<open>dir\<close> has five entries besides \<^verbatim>\<open>.\<close> and
  \<^verbatim>\<open>..\<close>, and the callback returns 0 at its third invocation. The callback is invoked
  exactly three times and the enumeration returns 0.\<close>

theorem SDL_SYS_FSenumerate_stops_at_request_witness:
  "fst (SDL_SYS_FSenumerate sample_os stop_at_third ''dir'' ''logical'' fresh) = 0 \<and>
   cb_results (trace (snd (SDL_SYS_FSenumerate sample_os stop_at_third ''dir'' ''logical'' fresh)))
     = [1, 1, 0] \<and>
   delivered (trace (snd (SDL_SYS_FSenumerate sample_os stop_at_third ''dir'' ''logical'' fresh)))
     = [(None, ''logical'', ''a''), (None, ''logical'', ''b''), (None, ''logical'', ''c'')]"
proof -
  let ?run = "SDL_SYS_FSenumerate sample_os stop_at_third ''dir'' ''logical'' fresh"
  let ?pre = "[Alloc pattern, Alloc wpattern, Free pattern,
           FindFirstFileExW (wide ''dir'' @ [0x5C, 0x2A]) (Some (wide ''.'')),
           Free wpattern, FindNextFileW (Some (wide ''..'')),
           FindNextFileW (Some (wide ''a'')), Alloc utf8fn,
           Callback None ''logical'' ''a'' 1, Free utf8fn,
           FindNextFileW (Some (wide ''b'')), Alloc utf8fn,
           Callback None ''logical'' ''b'' 1, Free utf8fn,
           FindNextFileW (Some (wide ''c'')), Alloc utf8fn]"
  have r: "?run = (fst ?run, snd ?run)" by simp
  have f: "trace fresh = []" by (simp add: fresh_def)
  have t: "trace (snd ?run) =
      trace fresh @ ?pre @ Callback None ''logical'' ''c'' 0 # [Free utf8fn, FindClose]"
    by (simp add: dir_stop_at_third f)
  have n: "(0::int) \<noteq> 1" by simp
  note c3 = SDL_SYS_FSenumerate_stops_at_request [OF r t n]
  have 1: "fst ?run = 0" using c3 by (rule conjunct1)
  have "cb_results (trace (snd ?run)) = cb_results ?pre @ [0]"
    using c3 [THEN conjunct2, THEN conjunct2, THEN conjunct1] t by (simp add: f)
  then have 2: "cb_results (trace (snd ?run)) = [1, 1, 0]" by simp
  have 3: "delivered (trace (snd ?run)) =
     [(None, ''logical'', ''a''), (None, ''logical'', ''b''), (None, ''logical'', ''c'')]"
    by (simp add: dir_stop_at_third)
  show ?thesis using 1 2 3 by simp
qed

subsection \<open>What is delivered\<close>

lemma upto_as_map: "[i..j] = map (\<lambda>n. i + int n) [0..<nat (j - i + 1)]"
  by (rule nth_equalityI) simp_all

lemma letters_as_drive_names:
  "map (\<lambda>j. [char_of j, CHR '':''])
     (filter (\<lambda>j. drives AND push_bit (nat (j - of_char (CHR ''A''))) 1 \<noteq> 0)
        [of_char (CHR ''A'') .. of_char (CHR ''Z'')])
   = drive_names drives"
proof -
  have n: "nat (90 - 65 + 1) = 26" by simp
  have u: "[65..90] = map (\<lambda>n. 65 + int n) [0..<26]"
    using upto_as_map [of 65 90] by (simp only: n)
  have "map (\<lambda>j. [char_of j, CHR '':''])
     (filter (\<lambda>j. drives AND push_bit (nat (j - 65)) 1 \<noteq> 0) (map (\<lambda>n. 65 + int n) [0..<26]))
   = drive_names drives"
    by (simp add: drive_names_def filter_map comp_def and_exp_eq_0_iff_not_bit)
  then have "map (\<lambda>j. [char_of j, CHR '':''])
     (filter (\<lambda>j. drives AND push_bit (nat (j - 65)) 1 \<noteq> 0) [65..90]) = drive_names drives"
    by (simp only: u)
  then show ?thesis by simp
qed

lemma drive_run_delivered:
  "drive_run dirname drives i retval ret evs \<Longrightarrow>
     \<exists>k. delivered evs =
       take k (map (\<lambda>j. (None, dirname, [char_of j, CHR '':'']))
                 (filter (\<lambda>j. drives AND push_bit (nat (j - of_char (CHR ''A''))) 1 \<noteq> 0)
                    [i .. of_char (CHR ''Z'')]))"
proof (induction rule: drive_run.induct)
  case (finished retval i)
  have "delivered [] = take 0 (map (\<lambda>j. (None, dirname, [char_of j, CHR '':'']))
                 (filter (\<lambda>j. drives AND push_bit (nat (j - of_char (CHR ''A''))) 1 \<noteq> 0)
                    [i .. of_char (CHR ''Z'')]))" by simp
  then show ?case by blast
next
  case (absent i ret evs)
  then show ?case using upto_rec1 [of i 90] by simp
next
  case (present i r ret evs)
  then obtain k where "delivered evs =
       take k (map (\<lambda>j. (None, dirname, [char_of j, CHR '':'']))
                 (filter (\<lambda>j. drives AND push_bit (nat (j - of_char (CHR ''A''))) 1 \<noteq> 0)
                    [i + 1 .. of_char (CHR ''Z'')]))" by blast
  then have "delivered (Callback None dirname [char_of i, CHR '':''] r # evs) =
       take (Suc k) (map (\<lambda>j. (None, dirname, [char_of j, CHR '':'']))
                 (filter (\<lambda>j. drives AND push_bit (nat (j - of_char (CHR ''A''))) 1 \<noteq> 0)
                    [i .. of_char (CHR ''Z'')]))"
    using present(1,2) upto_rec1 [of i 90] by simp
  then show ?case by blast
qed

lemma drive_run_complete:
  "drive_run dirname drives i retval ret evs \<Longrightarrow> retval = 1
     \<Longrightarrow> \<forall>r\<in>set (cb_results evs). r = 1
     \<Longrightarrow> ret = 1 \<and> delivered evs =
           map (\<lambda>j. (None, dirname, [char_of j, CHR '':'']))
             (filter (\<lambda>j. drives AND push_bit (nat (j - of_char (CHR ''A''))) 1 \<noteq> 0)
                [i .. of_char (CHR ''Z'')])"
proof (induction rule: drive_run.induct)
  case (finished retval i)
  then show ?case by simp
next
  case (absent i ret evs)
  then show ?case using upto_rec1 [of i 90] by simp
next
  case (present i r ret evs)
  then show ?case using upto_rec1 [of i 90] by simp
qed

lemma drive_run_only_callbacks:
  "drive_run dirname drives i retval ret evs
     \<Longrightarrow> \<forall>e\<in>set evs. \<exists>name r. e = Callback None dirname name r"
  by (induction rule: drive_run.induct) simp_all

lemma is_dot_or_dotdot_names:
  assumes "0 \<notin> set fn"
  shows "is_dot_or_dotdot fn = (fn = wide ''.'' \<or> fn = wide ''..'')"
proof (cases fn)
  case Nil
  then show ?thesis by (simp add: is_dot_or_dotdot_def wchar_at_def wide_def)
next
  case a: (Cons a as)
  show ?thesis
  proof (cases as)
    case Nil
    then show ?thesis using a by (auto simp: is_dot_or_dotdot_def wchar_at_def wide_def)
  next
    case b: (Cons b bs)
    show ?thesis
    proof (cases bs)
      case Nil
      then show ?thesis using a b assms
        by (auto simp: is_dot_or_dotdot_def wchar_at_def wide_def)
    next
      case (Cons c cs)
      then show ?thesis using a b assms
        by (auto simp: is_dot_or_dotdot_def wchar_at_def wide_def)
    qed
  qed
qed

lemma body_run_delivered:
  "body_run env dirname fn retval r evs \<Longrightarrow>
     found evs = [] \<and>
     delivered evs = map (\<lambda>f. (None, dirname, the (os_StringToUTF8 env f)))
       (filter (\<lambda>f. \<not> is_dot_or_dotdot f \<and> os_StringToUTF8 env f \<noteq> None) [fn])"
  by (induction rule: body_run.induct) simp_all

lemma find_run_delivered:
  "find_run env dirname fn rest retval ret evs \<Longrightarrow>
     delivered evs = map (\<lambda>f. (None, dirname, the (os_StringToUTF8 env f)))
       (filter (\<lambda>f. \<not> is_dot_or_dotdot f \<and> os_StringToUTF8 env f \<noteq> None) (fn # found evs))"
proof (induction rule: find_run.induct)
  case (stopped fn retval r evs rest)
  then show ?case using body_run_delivered [OF stopped(1)] by simp
next
  case (exhausted fn retval evs)
  then show ?case using body_run_delivered [OF exhausted(1)] by simp
next
  case (continued fn retval evs e es ret evs')
  then show ?case using body_run_delivered [OF continued(1)] by simp
qed

lemma find_run_found:
  "find_run env dirname fn rest retval ret evs \<Longrightarrow>
     (\<exists>ys. rest = found evs @ ys) \<and> (ret = 1 \<longrightarrow> found evs = rest)"
proof (induction rule: find_run.induct)
  case (stopped fn retval r evs rest)
  then show ?case using body_run_delivered [OF stopped(1)] by simp
next
  case (exhausted fn retval evs)
  then show ?case using body_run_delivered [OF exhausted(1)] by simp
next
  case (continued fn retval evs e es ret evs')
  then show ?case using body_run_delivered [OF continued(1)] by simp
qed

lemma find_run_all_continue:
  "find_run env dirname fn rest retval ret evs \<Longrightarrow> retval = 1
     \<Longrightarrow> \<forall>r\<in>set (cb_results evs). r = 1
     \<Longrightarrow> (ret = 1 \<or> ret = - 1) \<and>
         ((\<forall>f\<in>set (fn # found evs). \<not> is_dot_or_dotdot f \<longrightarrow> os_StringToUTF8 env f \<noteq> None)
            \<longrightarrow> ret = 1)"
proof (induction rule: find_run.induct)
  case (stopped fn retval r evs rest)
  from stopped(1) show ?case using stopped(2-) by (cases rule: body_run.cases) auto
next
  case (exhausted fn retval evs)
  then show ?case by simp
next
  case (continued fn retval evs e es ret evs')
  then show ?case using body_run_delivered [OF continued(1)] by simp
qed


lemma drive_run_log:
  "drive_run dirname drives i retval ret evs \<Longrightarrow> retval = 1 \<Longrightarrow>
     evs = map (\<lambda>(j, r). Callback None dirname [char_of j, CHR '':''] r)
             (zip (filter (\<lambda>j. drives AND push_bit (nat (j - of_char (CHR ''A''))) 1 \<noteq> 0)
                     [i .. of_char (CHR ''Z'')])
                  (cb_results evs)) \<and>
     length (cb_results evs) \<le>
       length (filter (\<lambda>j. drives AND push_bit (nat (j - of_char (CHR ''A''))) 1 \<noteq> 0)
                 [i .. of_char (CHR ''Z'')]) \<and>
     (\<forall>r\<in>set (butlast (cb_results evs)). r = 1) \<and>
     (length (cb_results evs) <
        length (filter (\<lambda>j. drives AND push_bit (nat (j - of_char (CHR ''A''))) 1 \<noteq> 0)
                  [i .. of_char (CHR ''Z'')])
        \<longrightarrow> cb_results evs \<noteq> [] \<and> last (cb_results evs) \<noteq> 1) \<and>
     ret = (if cb_results evs = [] then 1 else last (cb_results evs))"
proof (induction rule: drive_run.induct)
  case (finished retval i)
  then show ?case by simp
next
  case (absent i ret evs)
  then show ?case using upto_rec1 [of i 90] by simp
next
  case (present i r ret evs)
  show ?case
  proof (cases "r = 1")
    case True
    then show ?thesis using present upto_rec1 [of i 90] by simp
  next
    case False
    from present(3) False have "ret = r \<and> evs = []"
      by (cases rule: drive_run.cases) auto
    then show ?thesis using present(1,2) False upto_rec1 [of i 90] by simp
  qed
qed

lemma root_log:
  assumes "drive_run dirname drives (of_char (CHR ''A'')) 1 ret cbs"
  shows "\<exists>rs. cbs = map (\<lambda>(name, r). Callback None dirname name r) (zip (drive_names drives) rs) \<and>
          length rs \<le> length (drive_names drives) \<and>
          (\<forall>r\<in>set (butlast rs). r = 1) \<and>
          (length rs < length (drive_names drives) \<longrightarrow> rs \<noteq> [] \<and> last rs \<noteq> 1) \<and>
          ret = (if rs = [] then 1 else last rs)"
proof -
  let ?letters = "filter (\<lambda>j. drives AND push_bit (nat (j - of_char (CHR ''A''))) 1 \<noteq> 0)
                    [of_char (CHR ''A'') .. of_char (CHR ''Z'')]"
  let ?rs = "cb_results cbs"
  note l = drive_run_log [OF assms refl]
  have n: "drive_names drives = map (\<lambda>j. [char_of j, CHR '':'']) ?letters"
    by (rule letters_as_drive_names [symmetric])
  have len: "length (drive_names drives) = length ?letters"
    by (simp only: n length_map)
  have z: "map (\<lambda>(name, r). Callback None dirname name r) (zip (drive_names drives) ?rs)
           = map (\<lambda>(j, r). Callback None dirname [char_of j, CHR '':''] r) (zip ?letters ?rs)"
    by (simp only: n zip_map1 map_map) (simp add: comp_def case_prod_unfold)
  have 1: "cbs = map (\<lambda>(name, r). Callback None dirname name r) (zip (drive_names drives) ?rs)"
    using l [THEN conjunct1] by (simp only: z)
  have 2: "length ?rs \<le> length (drive_names drives)"
    using l [THEN conjunct2, THEN conjunct1] by (simp only: len)
  have 3: "\<forall>r\<in>set (butlast ?rs). r = 1"
    using l [THEN conjunct2, THEN conjunct2, THEN conjunct1] .
  have 4: "length ?rs < length (drive_names drives) \<longrightarrow> ?rs \<noteq> [] \<and> last ?rs \<noteq> 1"
    using l [THEN conjunct2, THEN conjunct2, THEN conjunct2, THEN conjunct1] by (simp only: len)
  have 5: "ret = (if ?rs = [] then 1 else last ?rs)"
    using l [THEN conjunct2, THEN conjunct2, THEN conjunct2, THEN conjunct2] .
  show ?thesis using 1 2 3 4 5 by blast
qed

text \<open>
  Claim C6, as amended. An enumeration of the empty path queries the drive bitmask and
  then only invokes the callback: it opens no native search. What it delivers, with the
  logical directory name, is an initial part of the names \<open>X:\<close> of the set bits among the
  bits 0 to 25, in ascending order of the letter, and all of them when no callback
  invocation returned a value other than 1. The initial part ends at the first
  invocation that returned a value other than 1: the log is the query followed by one
  invocation for each of the first names, with results \<open>rs\<close> of which all but the last
  are 1, and when a name is left undelivered the last result is not 1. The result of
  the enumeration is the last callback result, or 1 when no drive was delivered.
\<close>

theorem SDL_SYS_FSenumerate_root_lists_drives:
  assumes "SDL_SYS_FSenumerate env cb [] dirname w = (ret, w')"
    and "trace w' = trace w @ evs"
  shows "(\<exists>k. delivered evs =
              take k (map (\<lambda>name. (None, dirname, name)) (drive_names (os_GetLogicalDrives env)))) \<and>
         ((\<forall>r\<in>set (cb_results evs). r = 1) \<longrightarrow>
            delivered evs =
              map (\<lambda>name. (None, dirname, name)) (drive_names (os_GetLogicalDrives env))) \<and>
         (\<exists>cbs. evs = GetLogicalDrives # cbs \<and>
                (\<forall>e\<in>set cbs. \<exists>name r. e = Callback None dirname name r)) \<and>
         (\<exists>rs. evs = GetLogicalDrives #
                    map (\<lambda>(name, r). Callback None dirname name r)
                      (zip (drive_names (os_GetLogicalDrives env)) rs) \<and>
               length rs \<le> length (drive_names (os_GetLogicalDrives env)) \<and>
               (\<forall>r\<in>set (butlast rs). r = 1) \<and>
               (length rs < length (drive_names (os_GetLogicalDrives env)) \<longrightarrow>
                  rs \<noteq> [] \<and> last rs \<noteq> 1) \<and>
               ret = (if rs = [] then 1 else last rs))"
proof -
  let ?drives = "os_GetLogicalDrives env"
  let ?letters = "filter (\<lambda>j. ?drives AND push_bit (nat (j - of_char (CHR ''A''))) 1 \<noteq> 0)
                    [of_char (CHR ''A'') .. of_char (CHR ''Z'')]"
  have names: "map (\<lambda>j. (None :: string option, dirname, [char_of j, CHR '':''])) ?letters
                 = map (\<lambda>name. (None, dirname, name)) (drive_names ?drives)"
    using letters_as_drive_names [of ?drives, symmetric] by (simp only: map_map comp_def)
  from SDL_SYS_FSenumerate_run [OF assms(1)] obtain evs' where
    "trace w' = trace w @ evs'" "enumerate_run env [] dirname ret evs'" by blast
  then have "enumerate_run env [] dirname ret evs" using assms(2) by simp
  then obtain cbs where
    e: "evs = GetLogicalDrives # cbs" "drive_run dirname ?drives (of_char (CHR ''A'')) 1 ret cbs"
    by (cases rule: enumerate_run.cases) auto
  have d: "delivered evs = delivered cbs" and c: "cb_results evs = cb_results cbs"
    using e(1) by simp_all
  from drive_run_delivered [OF e(2)] obtain k where
    "delivered cbs = take k (map (\<lambda>j. (None, dirname, [char_of j, CHR '':''])) ?letters)"
    by blast
  then have "delivered evs =
              take k (map (\<lambda>name. (None, dirname, name)) (drive_names ?drives))"
    by (simp only: d names)
  then have 1: "\<exists>k. delivered evs =
              take k (map (\<lambda>name. (None, dirname, name)) (drive_names ?drives))" ..
  have 2: "(\<forall>r\<in>set (cb_results evs). r = 1) \<longrightarrow>
            delivered evs = map (\<lambda>name. (None, dirname, name)) (drive_names ?drives)"
  proof
    assume "\<forall>r\<in>set (cb_results evs). r = 1"
    then have "\<forall>r\<in>set (cb_results cbs). r = 1" by (simp only: c)
    from drive_run_complete [OF e(2) refl this, THEN conjunct2]
    show "delivered evs = map (\<lambda>name. (None, dirname, name)) (drive_names ?drives)"
      by (simp only: d names)
  qed
  have 3: "\<exists>cbs. evs = GetLogicalDrives # cbs \<and>
                (\<forall>e\<in>set cbs. \<exists>name r. e = Callback None dirname name r)"
    using e(1) drive_run_only_callbacks [OF e(2)] by blast
  from root_log [OF e(2)] obtain rs where
    "cbs = map (\<lambda>(name, r). Callback None dirname name r) (zip (drive_names ?drives) rs)"
    "length rs \<le> length (drive_names ?drives)"
    "\<forall>r\<in>set (butlast rs). r = 1"
    "length rs < length (drive_names ?drives) \<longrightarrow> rs \<noteq> [] \<and> last rs \<noteq> 1"
    "ret = (if rs = [] then 1 else last rs)"
    by blast
  then have 4: "\<exists>rs. evs = GetLogicalDrives #
                    map (\<lambda>(name, r). Callback None dirname name r)
                      (zip (drive_names ?drives) rs) \<and>
               length rs \<le> length (drive_names ?drives) \<and>
               (\<forall>r\<in>set (butlast rs). r = 1) \<and>
               (length rs < length (drive_names ?drives) \<longrightarrow> rs \<noteq> [] \<and> last rs \<noteq> 1) \<and>
               ret = (if rs = [] then 1 else last rs)"
    using e(1) by blast
  show ?thesis using 1 2 3 4 by (intro conjI)
qed

lemma root_keep_going:
  "SDL_SYS_FSenumerate sample_os keep_going [] ''logical'' fresh =
  (1, \<lparr>userdata = 2, last_error = None,
        trace = [GetLogicalDrives, Callback None ''logical'' ''A:'' 1,
                 Callback None ''logical'' ''C:'' 1]\<rparr>)"
  by (simp add: sample_defs keep_going_def)

lemma sample_drive_names: "drive_names (os_GetLogicalDrives sample_os) = [''A:'', ''C:'']"
  by (simp add: sample_os_def drive_names_def upt_conv_Cons char_of_def)

lemma root_stop_at_once:
  "SDL_SYS_FSenumerate sample_os stop_at_once [] ''logical'' fresh =
  (0, \<lparr>userdata = 1, last_error = None,
        trace = [GetLogicalDrives, Callback None ''logical'' ''A:'' 0]\<rparr>)"
  by (simp add: sample_defs stop_at_once_def)

text \<open>The drives A: and C: of the sample environment: both are delivered to a callback
  that continues, and a callback that returns 0 at the first makes the enumeration
  return 0.\<close>

theorem SDL_SYS_FSenumerate_root_lists_drives_witness:
  "delivered (trace (snd (SDL_SYS_FSenumerate sample_os keep_going [] ''logical'' fresh)))
     = [(None, ''logical'', ''A:''), (None, ''logical'', ''C:'')] \<and>
   fst (SDL_SYS_FSenumerate sample_os stop_at_once [] ''logical'' fresh) = 0"
proof -
  let ?run = "SDL_SYS_FSenumerate sample_os keep_going [] ''logical'' fresh"
  let ?stop = "SDL_SYS_FSenumerate sample_os stop_at_once [] ''logical'' fresh"
  have r: "?run = (fst ?run, snd ?run)" by simp
  have f: "trace fresh = []" by (simp add: fresh_def)
  have t: "trace (snd ?run) = trace fresh @ trace (snd ?run)" by (simp add: f)
  have a: "\<forall>r\<in>set (cb_results (trace (snd ?run))). r = 1" by (simp add: root_keep_going)
  have 1: "delivered (trace (snd ?run))
     = [(None, ''logical'', ''A:''), (None, ''logical'', ''C:'')]"
    using SDL_SYS_FSenumerate_root_lists_drives [OF r t, THEN conjunct2, THEN conjunct1] a
    by (simp add: sample_drive_names)
  have r': "?stop = (fst ?stop, snd ?stop)" by simp
  have t': "trace (snd ?stop) = trace fresh @ trace (snd ?stop)" by (simp add: f)
  from SDL_SYS_FSenumerate_root_lists_drives
    [OF r' t', THEN conjunct2, THEN conjunct2, THEN conjunct2]
  obtain rs where
    l: "trace (snd ?stop) = GetLogicalDrives #
          map (\<lambda>(name, r). Callback None ''logical'' name r)
            (zip (drive_names (os_GetLogicalDrives sample_os)) rs)"
    and v: "fst ?stop = (if rs = [] then 1 else last rs)"
    by blast
  have "map (\<lambda>(name, r). Callback None ''logical'' name r) (zip [''A:'', ''C:''] rs)
          = [Callback None ''logical'' ''A:'' 0]"
    using l by (simp add: root_stop_at_once sample_drive_names)
  then have "rs = [0]"
    by (cases rs; cases "tl rs") auto
  then have 2: "fst ?stop = 0" using v by simp
  show ?thesis using 1 2 by (intro conjI)
qed

text \<open>
  Claim C6 as it is written promises one entry for each set bit on every call. With a
  callback that returns 0 at once, drive C: (bit 2) is available and only \<^verbatim>\<open>A:\<close> is
  delivered.
\<close>

theorem SDL_SYS_FSenumerate_root_stops_counterexample:
  "bit (os_GetLogicalDrives sample_os) 2 \<and>
   delivered (trace (snd (SDL_SYS_FSenumerate sample_os stop_at_once [] ''logical'' fresh)))
     = [(None, ''logical'', ''A:'')]"
  by (simp add: sample_defs stop_at_once_def)

lemma body_run_unconverted:
  "body_run env dirname fn retval r evs \<Longrightarrow> \<not> is_dot_or_dotdot fn
     \<Longrightarrow> os_StringToUTF8 env fn = None \<Longrightarrow> r = - 1"
  by (induction rule: body_run.induct) simp_all

lemma find_run_unconverted:
  "find_run env dirname fn rest retval ret evs \<Longrightarrow> fn # found evs = xs @ f # ys
     \<Longrightarrow> \<not> is_dot_or_dotdot f \<Longrightarrow> os_StringToUTF8 env f = None
     \<Longrightarrow> ys = [] \<and> ret = - 1"
proof (induction arbitrary: xs rule: find_run.induct)
  case (stopped fn retval r evs rest)
  have "found evs = []" using body_run_delivered [OF stopped(1)] by simp
  then have "xs = [] \<and> f = fn \<and> ys = []" using stopped(3) by (simp add: Cons_eq_append_conv)
  then show ?case using body_run_unconverted [OF stopped(1)] stopped(4,5) by simp
next
  case (exhausted fn retval evs)
  have "found evs = []" using body_run_delivered [OF exhausted(1)] by simp
  then have "f = fn" using exhausted(2) by (simp add: Cons_eq_append_conv)
  then have "(1::int) = - 1" using body_run_unconverted [OF exhausted(1)] exhausted(3,4) by simp
  then show ?case by simp
next
  case (continued fn retval evs e es ret evs')
  have f: "found evs = []" using body_run_delivered [OF continued(1)] by simp
  show ?case
  proof (cases xs)
    case Nil
    then have "f = fn" using continued(4) by simp
    then have "(1::int) = - 1" using body_run_unconverted [OF continued(1)] continued(5,6) by simp
    then show ?thesis by simp
  next
    case (Cons x xs')
    then have "e # found evs' = xs' @ f # ys" using continued(4) f by simp
    from continued(3) [OF this continued(5,6)] show ?thesis .
  qed
qed

lemma enumerate_run_unconverted:
  "enumerate_run env fullpath dirname ret evs \<Longrightarrow> fullpath \<noteq> []
     \<Longrightarrow> found evs = xs @ f # ys
     \<Longrightarrow> \<not> is_dot_or_dotdot f \<Longrightarrow> os_StringToUTF8 env f = None
     \<Longrightarrow> ys = [] \<and> ret = - 1"
proof (induction rule: enumerate_run.induct)
  case (searched wpat entw rest ret evs)
  then have "entw # found evs = xs @ f # ys" by simp
  from find_run_unconverted [OF searched(5) this searched(8,9)] show ?case .
qed simp_all

lemma enumerate_run_failure:
  "enumerate_run env fullpath dirname ret evs \<Longrightarrow> fullpath \<noteq> [] \<Longrightarrow>
     \<not> (os_malloc env (length fullpath + 3) \<and>
        (\<exists>wpat. os_UTF8ToString env (fullpath @ [CHR 0x5C, CHR ''*'']) = Some wpat \<and>
                os_FindFirstFileExW env wpat \<noteq> None) \<and>
        (\<forall>f\<in>set (found evs). \<not> is_dot_or_dotdot f \<longrightarrow> os_StringToUTF8 env f \<noteq> None))
     \<Longrightarrow> ret = - 1"
proof (induction rule: enumerate_run.induct)
  case (searched wpat entw rest ret evs)
  let ?evs = "[Alloc pattern, Alloc wpattern, Free pattern, FindFirstFileExW wpat (Some entw),
               Free wpattern] @ evs @ [FindClose]"
  from searched obtain f where
    f: "f \<in> set (found ?evs)" "\<not> is_dot_or_dotdot f" "os_StringToUTF8 env f = None"
    by auto
  from split_list [OF f(1)] obtain xs ys where "found ?evs = xs @ f # ys" by blast
  then have "entw # found evs = xs @ f # ys" by simp
  from find_run_unconverted [OF searched(5) this f(2,3)] show ?case by simp
qed simp_all

lemma enumerate_run_delivered:
  "enumerate_run env fullpath dirname ret evs \<Longrightarrow> fullpath \<noteq> [] \<Longrightarrow>
     delivered evs = map (\<lambda>f. (None, dirname, the (os_StringToUTF8 env f)))
       (filter (\<lambda>f. \<not> is_dot_or_dotdot f \<and> os_StringToUTF8 env f \<noteq> None) (found evs))"
proof (induction rule: enumerate_run.induct)
  case (searched wpat entw rest ret evs)
  then show ?case using find_run_delivered [OF searched(5)] by simp
qed simp_all

lemma enumerate_run_found:
  "enumerate_run env fullpath dirname ret evs \<Longrightarrow>
     os_UTF8ToString env (fullpath @ [CHR 0x5C, CHR ''*'']) = Some wpat \<Longrightarrow>
     os_FindFirstFileExW env wpat = Some (entw, rest) \<Longrightarrow> fullpath \<noteq> [] \<Longrightarrow>
     (\<exists>ys. entw # rest = found evs @ ys) \<and> (ret = 1 \<longrightarrow> found evs = entw # rest)"
proof (induction rule: enumerate_run.induct)
  case (searched wpat' entw' rest' ret evs)
  then show ?case using find_run_found [OF searched(5)] by auto
qed simp_all

lemma enumerate_run_all_continue:
  "enumerate_run env fullpath dirname ret evs \<Longrightarrow> \<forall>r\<in>set (cb_results evs). r = 1 \<Longrightarrow>
     (ret = 1 \<or> ret = - 1) \<and>
     (fullpath = [] \<longrightarrow> ret = 1) \<and>
     (os_malloc env (length fullpath + 3) \<and>
      (\<exists>wpat. os_UTF8ToString env (fullpath @ [CHR 0x5C, CHR ''*'']) = Some wpat \<and>
              os_FindFirstFileExW env wpat \<noteq> None) \<and>
      (\<forall>f\<in>set (found evs). \<not> is_dot_or_dotdot f \<longrightarrow> os_StringToUTF8 env f \<noteq> None)
        \<longrightarrow> ret = 1)"
proof (induction rule: enumerate_run.induct)
  case (root ret evs)
  then show ?case using drive_run_complete [OF root(2) refl] by simp
next
  case (searched wpat entw rest ret evs)
  then show ?case using find_run_all_continue [OF searched(5) refl] by simp
qed simp_all

text \<open>
  Claim C7, as amended. In an enumeration of a nonempty path, what is delivered is, in
  order, the UTF-8 form of each entry that the native search yielded, other than
  \<^verbatim>\<open>.\<close> and \<^verbatim>\<open>..\<close>, whose conversion to UTF-8 succeeded, each with the caller's logical
  directory name and a null original directory. The entries yielded are an initial part
  of the directory's entries, and all of them when the enumeration returns 1. An entry
  other than \<^verbatim>\<open>.\<close> and \<^verbatim>\<open>..\<close> whose conversion fails is not delivered and ends the
  enumeration: it is the last entry that the search yields, and the enumeration
  returns -1.
\<close>

theorem SDL_SYS_FSenumerate_delivers_found_entries:
  assumes "SDL_SYS_FSenumerate env cb fullpath dirname w = (ret, w')"
    and "trace w' = trace w @ evs"
    and "fullpath \<noteq> []"
    and "\<forall>fn\<in>set (found evs). 0 \<notin> set fn"
  shows "delivered evs =
           map (\<lambda>fn. (None, dirname, the (os_StringToUTF8 env fn)))
             (filter (\<lambda>fn. fn \<noteq> wide ''.'' \<and> fn \<noteq> wide ''..'' \<and> os_StringToUTF8 env fn \<noteq> None)
                (found evs)) \<and>
         (os_UTF8ToString env (fullpath @ [CHR 0x5C, CHR ''*'']) = Some wpat \<and>
          os_FindFirstFileExW env wpat = Some (entw, rest) \<longrightarrow>
            (\<exists>ys. entw # rest = found evs @ ys) \<and> (ret = 1 \<longrightarrow> found evs = entw # rest)) \<and>
         (\<forall>before fn after.
            found evs = before @ fn # after \<and> fn \<noteq> wide ''.'' \<and> fn \<noteq> wide ''..'' \<and>
            os_StringToUTF8 env fn = None \<longrightarrow> after = [] \<and> ret = - 1)"
proof -
  from SDL_SYS_FSenumerate_run [OF assms(1)] obtain evs' where
    "trace w' = trace w @ evs'" "enumerate_run env fullpath dirname ret evs'" by blast
  then have run: "enumerate_run env fullpath dirname ret evs" using assms(2) by simp
  have 3: "\<forall>before fn after.
            found evs = before @ fn # after \<and> fn \<noteq> wide ''.'' \<and> fn \<noteq> wide ''..'' \<and>
            os_StringToUTF8 env fn = None \<longrightarrow> after = [] \<and> ret = - 1"
  proof (intro allI impI)
    fix before fn after
    assume a: "found evs = before @ fn # after \<and> fn \<noteq> wide ''.'' \<and> fn \<noteq> wide ''..'' \<and>
            os_StringToUTF8 env fn = None"
    then have "fn \<in> set (found evs)" by simp
    then have "0 \<notin> set fn" using assms(4) by blast
    then have "\<not> is_dot_or_dotdot fn" using a by (simp add: is_dot_or_dotdot_names)
    from enumerate_run_unconverted [OF run assms(3) _ this] a
    show "after = [] \<and> ret = - 1" by blast
  qed
  have "filter (\<lambda>fn. \<not> is_dot_or_dotdot fn \<and> os_StringToUTF8 env fn \<noteq> None) (found evs) =
        filter (\<lambda>fn. fn \<noteq> wide ''.'' \<and> fn \<noteq> wide ''..'' \<and> os_StringToUTF8 env fn \<noteq> None)
          (found evs)"
    using assms(4) by (intro filter_cong) (auto simp: is_dot_or_dotdot_names)
  then have 1: "delivered evs =
           map (\<lambda>fn. (None, dirname, the (os_StringToUTF8 env fn)))
             (filter (\<lambda>fn. fn \<noteq> wide ''.'' \<and> fn \<noteq> wide ''..'' \<and> os_StringToUTF8 env fn \<noteq> None)
                (found evs))"
    using enumerate_run_delivered [OF run assms(3)] by simp
  have 2: "os_UTF8ToString env (fullpath @ [CHR 0x5C, CHR ''*'']) = Some wpat \<and>
          os_FindFirstFileExW env wpat = Some (entw, rest) \<longrightarrow>
            (\<exists>ys. entw # rest = found evs @ ys) \<and> (ret = 1 \<longrightarrow> found evs = entw # rest)"
    using enumerate_run_found [OF run _ _ assms(3)] by blast
  show ?thesis using 1 2 3 by (intro conjI)
qed

lemma dir_keep_going:
  "SDL_SYS_FSenumerate sample_os keep_going ''dir'' ''logical'' fresh =
  (1, \<lparr>userdata = 5, last_error = None,
        trace =
          [Alloc pattern, Alloc wpattern, Free pattern,
           FindFirstFileExW (wide ''dir'' @ [0x5C, 0x2A]) (Some (wide ''.'')),
           Free wpattern, FindNextFileW (Some (wide ''..'')),
           FindNextFileW (Some (wide ''a'')), Alloc utf8fn,
           Callback None ''logical'' ''a'' 1, Free utf8fn,
           FindNextFileW (Some (wide ''b'')), Alloc utf8fn,
           Callback None ''logical'' ''b'' 1, Free utf8fn,
           FindNextFileW (Some (wide ''c'')), Alloc utf8fn,
           Callback None ''logical'' ''c'' 1, Free utf8fn,
           FindNextFileW (Some (wide ''d'')), Alloc utf8fn,
           Callback None ''logical'' ''d'' 1, Free utf8fn,
           FindNextFileW (Some (wide ''e'')), Alloc utf8fn,
           Callback None ''logical'' ''e'' 1, Free utf8fn,
           FindNextFileW None, FindClose]\<rparr>)"
  by (simp add: sample_defs keep_going_def)

lemma odd_keep_going:
  "SDL_SYS_FSenumerate sample_os keep_going ''odd'' ''logical'' fresh =
  (- 1, \<lparr>userdata = 1, last_error = None,
        trace =
          [Alloc pattern, Alloc wpattern, Free pattern,
           FindFirstFileExW (wide ''odd'' @ [0x5C, 0x2A]) (Some (wide ''.'')),
           Free wpattern, FindNextFileW (Some (wide ''..'')),
           FindNextFileW (Some (wide ''a'')), Alloc utf8fn,
           Callback None ''logical'' ''a'' 1, Free utf8fn,
           FindNextFileW (Some [0xD800]), FindClose]\<rparr>)"
  by (simp add: sample_defs keep_going_def)

text \<open>The five entries of \<^verbatim>\<open>dir\<close> are delivered, \<^verbatim>\<open>.\<close> and \<^verbatim>\<open>..\<close> are not; in \<^verbatim>\<open>odd\<close> the
  entry whose name does not convert ends the enumeration with -1.\<close>

theorem SDL_SYS_FSenumerate_delivers_found_entries_witness:
  "delivered (trace (snd (SDL_SYS_FSenumerate sample_os keep_going ''dir'' ''logical'' fresh)))
     = [(None, ''logical'', ''a''), (None, ''logical'', ''b''), (None, ''logical'', ''c''),
        (None, ''logical'', ''d''), (None, ''logical'', ''e'')] \<and>
   fst (SDL_SYS_FSenumerate sample_os keep_going ''odd'' ''logical'' fresh) = - 1"
proof -
  let ?run = "SDL_SYS_FSenumerate sample_os keep_going ''dir'' ''logical'' fresh"
  let ?odd = "SDL_SYS_FSenumerate sample_os keep_going ''odd'' ''logical'' fresh"
  have r: "?run = (fst ?run, snd ?run)" by simp
  have f: "trace fresh = []" by (simp add: fresh_def)
  have t: "trace (snd ?run) = trace fresh @ trace (snd ?run)" by (simp add: f)
  have p: "''dir'' \<noteq> []" by simp
  have fo: "found (trace (snd ?run)) =
      [wide ''.'', wide ''..'', wide ''a'', wide ''b'', wide ''c'', wide ''d'', wide ''e'']"
    by (simp add: dir_keep_going)
  have z: "\<forall>fn\<in>set (found (trace (snd ?run))). 0 \<notin> set fn"
    by (simp add: fo) (simp add: wide_def)
  have "delivered (trace (snd ?run)) =
           map (\<lambda>fn. (None, ''logical'', the (os_StringToUTF8 sample_os fn)))
             (filter (\<lambda>fn. fn \<noteq> wide ''.'' \<and> fn \<noteq> wide ''..'' \<and>
                           os_StringToUTF8 sample_os fn \<noteq> None)
                (found (trace (snd ?run))))"
    using SDL_SYS_FSenumerate_delivers_found_entries [OF r t p z] by (rule conjunct1)
  then have 1: "delivered (trace (snd ?run))
     = [(None, ''logical'', ''a''), (None, ''logical'', ''b''), (None, ''logical'', ''c''),
        (None, ''logical'', ''d''), (None, ''logical'', ''e'')]"
    by (simp only: fo) (simp add: sample_os_def wide_to_ascii_def wide_def char_of_def)
  have r': "?odd = (fst ?odd, snd ?odd)" by simp
  have t': "trace (snd ?odd) = trace fresh @ trace (snd ?odd)" by (simp add: f)
  have p': "''odd'' \<noteq> []" by simp
  have fo': "found (trace (snd ?odd)) = [wide ''.'', wide ''..'', wide ''a''] @ [0xD800] # []"
    by (simp add: odd_keep_going)
  have z': "\<forall>fn\<in>set (found (trace (snd ?odd))). 0 \<notin> set fn"
    by (simp add: fo') (simp add: wide_def)
  have u: "[0xD800] \<noteq> wide ''.'' \<and> [0xD800] \<noteq> wide ''..'' \<and>
           os_StringToUTF8 sample_os [0xD800] = None"
    by (simp add: sample_os_def wide_to_ascii_def wide_def)
  have 2: "fst ?odd = - 1"
    using SDL_SYS_FSenumerate_delivers_found_entries
      [OF r' t' p' z', THEN conjunct2, THEN conjunct2, THEN spec, THEN spec, THEN spec,
       of "[wide ''.'', wide ''..'', wide ''a'']" "[0xD800]" "[]"] fo' u
    by blast
  show ?thesis using 1 2 by (intro conjI)
qed

text \<open>
  Claim C7 as it is written promises the delivery of every entry found other than \<^verbatim>\<open>.\<close>
  and \<^verbatim>\<open>..\<close>. In \<^verbatim>\<open>odd\<close> the search yields an entry whose name does not convert: it is
  neither \<^verbatim>\<open>.\<close> nor \<^verbatim>\<open>..\<close>, and it is not delivered.
\<close>

theorem SDL_SYS_FSenumerate_unconverted_entry_counterexample:
  "found (trace (snd (SDL_SYS_FSenumerate sample_os keep_going ''odd'' ''logical'' fresh)))
     = [wide ''.'', wide ''..'', wide ''a'', [0xD800]] \<and>
   [0xD800] \<noteq> wide ''.'' \<and> [0xD800] \<noteq> wide ''..'' \<and>
   delivered (trace (snd (SDL_SYS_FSenumerate sample_os keep_going ''odd'' ''logical'' fresh)))
     = [(None, ''logical'', ''a'')]"
  by (simp add: sample_defs keep_going_def)

text \<open>
  Claim C9, as amended. An enumeration in which no callback invocation returned a value
  other than 1 returns 1 or -1. It returns 1 for the empty path, whatever the drives, and
  for a nonempty path when the pattern buffer is allocated, the pattern converts, the
  search opens and every entry yielded, other than \<^verbatim>\<open>.\<close> and \<^verbatim>\<open>..\<close>, converts to UTF-8.
  For a nonempty path it returns -1 when the driver fails: when the pattern buffer is
  not allocated, the pattern does not convert, the search does not open, or an entry
  yielded, other than \<^verbatim>\<open>.\<close> and \<^verbatim>\<open>..\<close>, does not convert.
\<close>

theorem SDL_SYS_FSenumerate_returns_1_when_not_stopped:
  assumes "SDL_SYS_FSenumerate env cb fullpath dirname w = (ret, w')"
    and "trace w' = trace w @ evs"
    and "\<forall>r\<in>set (cb_results evs). r = 1"
  shows "(ret = 1 \<or> ret = - 1) \<and>
     (fullpath = [] \<longrightarrow> ret = 1) \<and>
     (os_malloc env (length fullpath + 3) \<and>
      (\<exists>wpat. os_UTF8ToString env (fullpath @ [CHR 0x5C, CHR ''*'']) = Some wpat \<and>
              os_FindFirstFileExW env wpat \<noteq> None) \<and>
      (\<forall>fn\<in>set (found evs). \<not> is_dot_or_dotdot fn \<longrightarrow> os_StringToUTF8 env fn \<noteq> None)
        \<longrightarrow> ret = 1) \<and>
     (fullpath \<noteq> [] \<and>
      (\<not> os_malloc env (length fullpath + 3) \<or>
       os_UTF8ToString env (fullpath @ [CHR 0x5C, CHR ''*'']) = None \<or>
       (\<exists>wpat. os_UTF8ToString env (fullpath @ [CHR 0x5C, CHR ''*'']) = Some wpat \<and>
               os_FindFirstFileExW env wpat = None) \<or>
       (\<exists>fn\<in>set (found evs). \<not> is_dot_or_dotdot fn \<and> os_StringToUTF8 env fn = None))
        \<longrightarrow> ret = - 1)"
proof -
  from SDL_SYS_FSenumerate_run [OF assms(1)] obtain evs' where
    "trace w' = trace w @ evs'" "enumerate_run env fullpath dirname ret evs'" by blast
  then have run: "enumerate_run env fullpath dirname ret evs" using assms(2) by simp
  note ok = enumerate_run_all_continue [OF run assms(3)]
  have failure: "fullpath \<noteq> [] \<and>
      (\<not> os_malloc env (length fullpath + 3) \<or>
       os_UTF8ToString env (fullpath @ [CHR 0x5C, CHR ''*'']) = None \<or>
       (\<exists>wpat. os_UTF8ToString env (fullpath @ [CHR 0x5C, CHR ''*'']) = Some wpat \<and>
               os_FindFirstFileExW env wpat = None) \<or>
       (\<exists>fn\<in>set (found evs). \<not> is_dot_or_dotdot fn \<and> os_StringToUTF8 env fn = None))
        \<longrightarrow> ret = - 1"
  proof
    assume a: "fullpath \<noteq> [] \<and>
      (\<not> os_malloc env (length fullpath + 3) \<or>
       os_UTF8ToString env (fullpath @ [CHR 0x5C, CHR ''*'']) = None \<or>
       (\<exists>wpat. os_UTF8ToString env (fullpath @ [CHR 0x5C, CHR ''*'']) = Some wpat \<and>
               os_FindFirstFileExW env wpat = None) \<or>
       (\<exists>fn\<in>set (found evs). \<not> is_dot_or_dotdot fn \<and> os_StringToUTF8 env fn = None))"
    then have "\<not> (os_malloc env (length fullpath + 3) \<and>
        (\<exists>wpat. os_UTF8ToString env (fullpath @ [CHR 0x5C, CHR ''*'']) = Some wpat \<and>
                os_FindFirstFileExW env wpat \<noteq> None) \<and>
        (\<forall>f\<in>set (found evs). \<not> is_dot_or_dotdot f \<longrightarrow> os_StringToUTF8 env f \<noteq> None))"
      by auto
    from enumerate_run_failure [OF run _ this] a show "ret = - 1" by blast
  qed
  show ?thesis
    using ok [THEN conjunct1] ok [THEN conjunct2, THEN conjunct1]
      ok [THEN conjunct2, THEN conjunct2] failure
    by (intro conjI)
qed

lemma none_keep_going:
  "SDL_SYS_FSenumerate sample_os keep_going ''none'' ''logical'' fresh =
  (- 1, \<lparr>userdata = 0, last_error = Some ''Failed to enumerate directory'',
        trace =
          [Alloc pattern, Alloc wpattern, Free pattern,
           FindFirstFileExW (wide ''none'' @ [0x5C, 0x2A]) None, Free wpattern]\<rparr>)"
  by (simp add: sample_defs keep_going_def)

text \<open>No drive at all, the directory \<^verbatim>\<open>dir\<close> enumerated to its end, and a directory that
  does not exist.\<close>

theorem SDL_SYS_FSenumerate_returns_1_when_not_stopped_witness:
  "fst (SDL_SYS_FSenumerate (sample_os\<lparr>os_GetLogicalDrives := 0\<rparr>) keep_going [] ''logical'' fresh)
     = 1 \<and>
   fst (SDL_SYS_FSenumerate sample_os keep_going ''dir'' ''logical'' fresh) = 1 \<and>
   fst (SDL_SYS_FSenumerate sample_os keep_going ''none'' ''logical'' fresh) = - 1"
proof -
  let ?none = "SDL_SYS_FSenumerate (sample_os\<lparr>os_GetLogicalDrives := 0\<rparr>) keep_going []
                 ''logical'' fresh"
  let ?run = "SDL_SYS_FSenumerate sample_os keep_going ''dir'' ''logical'' fresh"
  let ?missing = "SDL_SYS_FSenumerate sample_os keep_going ''none'' ''logical'' fresh"
  have f: "trace fresh = []" by (simp add: fresh_def)
  have r0: "?none = (fst ?none, snd ?none)" by simp
  have t0: "trace (snd ?none) = trace fresh @ trace (snd ?none)" by (simp add: f)
  have e0: "trace (snd ?none) = [GetLogicalDrives]"
    by (simp add: SDL_SYS_FSenumerate_def emit_def fresh_def)
  have a0: "\<forall>r\<in>set (cb_results (trace (snd ?none))). r = 1" by (simp add: e0)
  have 1: "fst ?none = 1"
    using SDL_SYS_FSenumerate_returns_1_when_not_stopped
      [OF r0 t0 a0, THEN conjunct2, THEN conjunct1] by simp
  have r: "?run = (fst ?run, snd ?run)" by simp
  have t: "trace (snd ?run) = trace fresh @ trace (snd ?run)" by (simp add: f)
  have a: "\<forall>r\<in>set (cb_results (trace (snd ?run))). r = 1" by (simp add: dir_keep_going)
  have m: "os_malloc sample_os (length ''dir'' + 3)" by (simp add: sample_os_def)
  have s: "\<exists>wpat. os_UTF8ToString sample_os (''dir'' @ [CHR 0x5C, CHR ''*'']) = Some wpat \<and>
              os_FindFirstFileExW sample_os wpat \<noteq> None"
    by (simp add: sample_os_def ascii_to_wide_def wide_def)
  have c: "\<forall>fn\<in>set (found (trace (snd ?run))).
             \<not> is_dot_or_dotdot fn \<longrightarrow> os_StringToUTF8 sample_os fn \<noteq> None"
    by (simp add: dir_keep_going) (simp add: sample_os_def wide_to_ascii_def wide_def)
  have 2: "fst ?run = 1"
    using SDL_SYS_FSenumerate_returns_1_when_not_stopped
      [OF r t a, THEN conjunct2, THEN conjunct2, THEN conjunct1] m s c by blast
  have rm: "?missing = (fst ?missing, snd ?missing)" by simp
  have tm: "trace (snd ?missing) = trace fresh @ trace (snd ?missing)" by (simp add: f)
  have am: "\<forall>r\<in>set (cb_results (trace (snd ?missing))). r = 1" by (simp add: none_keep_going)
  have pm: "''none'' \<noteq> []" by simp
  have sm: "\<exists>wpat. os_UTF8ToString sample_os (''none'' @ [CHR 0x5C, CHR ''*'']) = Some wpat \<and>
              os_FindFirstFileExW sample_os wpat = None"
    by (simp add: sample_os_def ascii_to_wide_def wide_def)
  have 3: "fst ?missing = - 1"
    using SDL_SYS_FSenumerate_returns_1_when_not_stopped
      [OF rm tm am, THEN conjunct2, THEN conjunct2, THEN conjunct2] pm sm by blast
  show ?thesis using 1 2 3 by (intro conjI)
qed

text \<open>
  Claim C9 as it is written promises the result 1 whenever no callback invocation
  returned another value. In \<^verbatim>\<open>odd\<close> the only invocation returned 1 and the enumeration
  returns -1, the next name having no UTF-8 form; for \<^verbatim>\<open>none\<close>, which does not exist, the
  callback is never invoked and the enumeration returns -1.
\<close>

theorem SDL_SYS_FSenumerate_failure_counterexample:
  "cb_results (trace (snd (SDL_SYS_FSenumerate sample_os keep_going ''odd'' ''logical'' fresh)))
     = [1] \<and>
   fst (SDL_SYS_FSenumerate sample_os keep_going ''odd'' ''logical'' fresh) = - 1 \<and>
   cb_results (trace (snd (SDL_SYS_FSenumerate sample_os keep_going ''none'' ''logical'' fresh)))
     = [] \<and>
   fst (SDL_SYS_FSenumerate sample_os keep_going ''none'' ''logical'' fresh) = - 1"
  by (simp add: sample_defs keep_going_def)

section \<open>Stat (claim C5)\<close>

lemma uint_size_words:
  "uint (push_bit 32 (ucast (high :: DWORD)) OR ucast (low :: DWORD) :: Uint64)
     = uint high * 2 ^ 32 + uint low"
  using uint_QuadPart[of low high] by (simp add: QuadPart_def)

lemma stat_success:
  assumes "os_UTF8ToString env fullpath = Some wp"
    and "os_GetFileAttributesExW env wp = Inr winstat"
  shows "SDL_SYS_FSstat env fullpath info w =
     (1,
      info\<lparr>info_type :=
             (if bit (dwFileAttributes winstat) 4 then SDL_PATHTYPE_DIRECTORY
              else if bit (dwFileAttributes winstat) 12 \<or> bit (dwFileAttributes winstat) 6
                   then SDL_PATHTYPE_OTHER else SDL_PATHTYPE_FILE),
           info_size :=
             (if bit (dwFileAttributes winstat) 4 then 0
              else push_bit 32 (ucast (nFileSizeHigh winstat)) OR ucast (nFileSizeLow winstat)),
           create_time := FileTimeToSDLTime (ftCreationTime winstat),
           modify_time := FileTimeToSDLTime (ftLastWriteTime winstat),
           access_time := FileTimeToSDLTime (ftLastAccessTime winstat)\<rparr>,
      emit (Free wpath) (emit (GetFileAttributesExW wp) (emit (Alloc wpath) w)))"
  using assms
  by (simp add: SDL_SYS_FSstat_def directory_bit offline_device_bits Let_def)


lemma mkdir_success:
  "os_UTF8ToString env p = Some q \<Longrightarrow> os_CreateDirectoryW env q
     \<Longrightarrow> fst (SDL_SYS_FSmkdir env p w) = 0"
  by (simp add: SDL_SYS_FSmkdir_def)

lemma rename_success:
  "os_UTF8ToString env p = Some q \<Longrightarrow> os_UTF8ToString env p' = Some q'
     \<Longrightarrow> os_MoveFileExW env q q' MOVEFILE_REPLACE_EXISTING
     \<Longrightarrow> fst (SDL_SYS_FSrename env p p' w) = 0"
  by (simp add: SDL_SYS_FSrename_def)

lemma remove_success:
  assumes "os_UTF8ToString env p = Some q" and "os_GetFileAttributesExW env q = Inr a"
     and "if bit (dwFileAttributes a) 4 then os_RemoveDirectoryW env q else os_DeleteFileW env q"
  shows "fst (SDL_SYS_FSremove env p w) = 0"
proof (cases "bit (dwFileAttributes a) 4")
  case True
  then have "dwFileAttributes a AND FILE_ATTRIBUTE_DIRECTORY \<noteq> 0" by (simp add: directory_bit)
  then show ?thesis using assms True by (simp add: SDL_SYS_FSremove_def)
next
  case False
  then have "dwFileAttributes a AND FILE_ATTRIBUTE_DIRECTORY = 0" using directory_bit[of "dwFileAttributes a"] by simp
  then show ?thesis using assms False by (simp add: SDL_SYS_FSremove_def)
qed

text \<open>
  Claim C5, as amended. When stat succeeds (the path converts and the attribute query
  succeeds) it returns 1; the type is DIRECTORY with size 0 when the directory bit
  (bit 4) is set, otherwise OTHER when the offline (bit 12) or device (bit 6) bit is set,
  otherwise FILE, in both cases with the size \<open>high \<times> 2\<^sup>3\<^sup>2 + low\<close>; the three times are
  the converter's results for the creation, last-write and last-access times. The result
  1 differs from the result 0 of a successful mkdir, rename or remove; the remaining
  operation, enumerate, returns 1 as stat does when it completes: when no callback
  invocation returned a value other than 1 and the driver did not fail.
\<close>

theorem SDL_SYS_FSstat_populates_info:
  assumes "os_UTF8ToString env fullpath = Some wp"
    and "os_GetFileAttributesExW env wp = Inr winstat"
    and "SDL_SYS_FSstat env fullpath info w = (r, info', w')"
  shows "r = 1 \<and>
    (bit (dwFileAttributes winstat) 4 \<longrightarrow>
       info_type info' = SDL_PATHTYPE_DIRECTORY \<and> info_size info' = 0) \<and>
    (\<not> bit (dwFileAttributes winstat) 4 \<and>
       (bit (dwFileAttributes winstat) 12 \<or> bit (dwFileAttributes winstat) 6) \<longrightarrow>
       info_type info' = SDL_PATHTYPE_OTHER \<and>
       uint (info_size info') = uint (nFileSizeHigh winstat) * 2 ^ 32 + uint (nFileSizeLow winstat)) \<and>
    (\<not> bit (dwFileAttributes winstat) 4 \<and>
       \<not> bit (dwFileAttributes winstat) 12 \<and> \<not> bit (dwFileAttributes winstat) 6 \<longrightarrow>
       info_type info' = SDL_PATHTYPE_FILE \<and>
       uint (info_size info') = uint (nFileSizeHigh winstat) * 2 ^ 32 + uint (nFileSizeLow winstat)) \<and>
    create_time info' = FileTimeToSDLTime (ftCreationTime winstat) \<and>
    modify_time info' = FileTimeToSDLTime (ftLastWriteTime winstat) \<and>
    access_time info' = FileTimeToSDLTime (ftLastAccessTime winstat) \<and>
    (os_UTF8ToString env p = Some q \<and> os_CreateDirectoryW env q \<longrightarrow>
       fst (SDL_SYS_FSmkdir env p w) = 0) \<and>
    (os_UTF8ToString env p = Some q \<and> os_UTF8ToString env p' = Some q' \<and>
       os_MoveFileExW env q q' MOVEFILE_REPLACE_EXISTING \<longrightarrow>
       fst (SDL_SYS_FSrename env p p' w) = 0) \<and>
    (os_UTF8ToString env p = Some q \<and> os_GetFileAttributesExW env q = Inr a \<and>
       (if bit (dwFileAttributes a) 4 then os_RemoveDirectoryW env q else os_DeleteFileW env q) \<longrightarrow>
       fst (SDL_SYS_FSremove env p w) = 0) \<and>
    (SDL_SYS_FSenumerate env cb path dirname we = (ret, we') \<and> trace we' = trace we @ evs \<and>
       (\<forall>x\<in>set (cb_results evs). x = 1) \<and>
       (path = [] \<or>
        os_malloc env (length path + 3) \<and>
        (\<exists>wpat. os_UTF8ToString env (path @ [CHR 0x5C, CHR ''*'']) = Some wpat \<and>
                os_FindFirstFileExW env wpat \<noteq> None) \<and>
        (\<forall>fn\<in>set (found evs). \<not> is_dot_or_dotdot fn \<longrightarrow> os_StringToUTF8 env fn \<noteq> None)) \<longrightarrow>
       ret = 1)"
proof -
  note s = stat_success [OF assms(1) assms(2), of info w]
  have r: "r = 1" using s assms(3) by simp
  have i: "info' = info\<lparr>info_type :=
             (if bit (dwFileAttributes winstat) 4 then SDL_PATHTYPE_DIRECTORY
              else if bit (dwFileAttributes winstat) 12 \<or> bit (dwFileAttributes winstat) 6
                   then SDL_PATHTYPE_OTHER else SDL_PATHTYPE_FILE),
           info_size :=
             (if bit (dwFileAttributes winstat) 4 then 0
              else push_bit 32 (ucast (nFileSizeHigh winstat)) OR ucast (nFileSizeLow winstat)),
           create_time := FileTimeToSDLTime (ftCreationTime winstat),
           modify_time := FileTimeToSDLTime (ftLastWriteTime winstat),
           access_time := FileTimeToSDLTime (ftLastAccessTime winstat)\<rparr>"
    using s assms(3) by simp
  have dir: "bit (dwFileAttributes winstat) 4 \<longrightarrow>
       info_type info' = SDL_PATHTYPE_DIRECTORY \<and> info_size info' = 0"
    by (simp add: i)
  have other: "\<not> bit (dwFileAttributes winstat) 4 \<and>
       (bit (dwFileAttributes winstat) 12 \<or> bit (dwFileAttributes winstat) 6) \<longrightarrow>
       info_type info' = SDL_PATHTYPE_OTHER \<and>
       uint (info_size info') = uint (nFileSizeHigh winstat) * 2 ^ 32 + uint (nFileSizeLow winstat)"
    by (simp add: i uint_size_words)
  have reg: "\<not> bit (dwFileAttributes winstat) 4 \<and>
       \<not> bit (dwFileAttributes winstat) 12 \<and> \<not> bit (dwFileAttributes winstat) 6 \<longrightarrow>
       info_type info' = SDL_PATHTYPE_FILE \<and>
       uint (info_size info') = uint (nFileSizeHigh winstat) * 2 ^ 32 + uint (nFileSizeLow winstat)"
    by (simp add: i uint_size_words)
  have t1: "create_time info' = FileTimeToSDLTime (ftCreationTime winstat)"
    by (simp add: i)
  have t2: "modify_time info' = FileTimeToSDLTime (ftLastWriteTime winstat)"
    by (simp add: i)
  have t3: "access_time info' = FileTimeToSDLTime (ftLastAccessTime winstat)"
    by (simp add: i)
  have mk: "os_UTF8ToString env p = Some q \<and> os_CreateDirectoryW env q \<longrightarrow>
       fst (SDL_SYS_FSmkdir env p w) = 0"
    using mkdir_success [of env p q w] by blast
  have rn: "os_UTF8ToString env p = Some q \<and> os_UTF8ToString env p' = Some q' \<and>
       os_MoveFileExW env q q' MOVEFILE_REPLACE_EXISTING \<longrightarrow>
       fst (SDL_SYS_FSrename env p p' w) = 0"
    using rename_success [of env p q p' q' w] by blast
  have rm: "os_UTF8ToString env p = Some q \<and> os_GetFileAttributesExW env q = Inr a \<and>
       (if bit (dwFileAttributes a) 4 then os_RemoveDirectoryW env q else os_DeleteFileW env q) \<longrightarrow>
       fst (SDL_SYS_FSremove env p w) = 0"
    using remove_success [of env p q a w] by blast
  have en: "SDL_SYS_FSenumerate env cb path dirname we = (ret, we') \<and>
       trace we' = trace we @ evs \<and>
       (\<forall>x\<in>set (cb_results evs). x = 1) \<and>
       (path = [] \<or>
        os_malloc env (length path + 3) \<and>
        (\<exists>wpat. os_UTF8ToString env (path @ [CHR 0x5C, CHR ''*'']) = Some wpat \<and>
                os_FindFirstFileExW env wpat \<noteq> None) \<and>
        (\<forall>fn\<in>set (found evs). \<not> is_dot_or_dotdot fn \<longrightarrow> os_StringToUTF8 env fn \<noteq> None)) \<longrightarrow>
       ret = 1"
  proof
    assume h: "SDL_SYS_FSenumerate env cb path dirname we = (ret, we') \<and>
       trace we' = trace we @ evs \<and>
       (\<forall>x\<in>set (cb_results evs). x = 1) \<and>
       (path = [] \<or>
        os_malloc env (length path + 3) \<and>
        (\<exists>wpat. os_UTF8ToString env (path @ [CHR 0x5C, CHR ''*'']) = Some wpat \<and>
                os_FindFirstFileExW env wpat \<noteq> None) \<and>
        (\<forall>fn\<in>set (found evs). \<not> is_dot_or_dotdot fn \<longrightarrow> os_StringToUTF8 env fn \<noteq> None))"
    from h have run: "SDL_SYS_FSenumerate env cb path dirname we = (ret, we')" by blast
    from SDL_SYS_FSenumerate_run [OF run] obtain evs' where
      "trace we' = trace we @ evs'" "enumerate_run env path dirname ret evs'" by blast
    then have "enumerate_run env path dirname ret evs" using h by simp
    from enumerate_run_all_continue [OF this] h show "ret = 1" by blast
  qed
  show ?thesis
    by (intro conjI) (rule r dir other reg t1 t2 t3 mk rn rm en)+
qed


text \<open>The offline file of the sample environment, and a directory that can be created.\<close>

theorem SDL_SYS_FSstat_populates_info_witness:
  "fst (SDL_SYS_FSstat sample_os ''tape'' blank fresh) = 1 \<and>
   info_type (fst (snd (SDL_SYS_FSstat sample_os ''tape'' blank fresh))) = SDL_PATHTYPE_OTHER \<and>
   uint (info_size (fst (snd (SDL_SYS_FSstat sample_os ''tape'' blank fresh)))) = 5 \<and>
   sint (modify_time (fst (snd (SDL_SYS_FSstat sample_os ''tape'' blank fresh)))) = 1 \<and>
   fst (SDL_SYS_FSmkdir sample_os ''new'' fresh) = 0 \<and>
   fst (SDL_SYS_FSenumerate sample_os keep_going ''dir'' ''logical'' fresh) = 1"
proof -
  let ?run = "SDL_SYS_FSenumerate sample_os keep_going ''dir'' ''logical'' fresh"
  have er: "?run = (fst ?run, snd ?run)" by simp
  have et: "trace (snd ?run) = trace fresh @ trace (snd ?run)" by (simp add: fresh_def)
  have ea: "\<forall>x\<in>set (cb_results (trace (snd ?run))). x = 1" by (simp add: dir_keep_going)
  have em: "os_malloc sample_os (length ''dir'' + 3)" by (simp add: sample_os_def)
  have es: "\<exists>wpat. os_UTF8ToString sample_os (''dir'' @ [CHR 0x5C, CHR ''*'']) = Some wpat \<and>
              os_FindFirstFileExW sample_os wpat \<noteq> None"
    by (simp add: sample_os_def ascii_to_wide_def wide_def)
  have ec: "\<forall>fn\<in>set (found (trace (snd ?run))).
             \<not> is_dot_or_dotdot fn \<longrightarrow> os_StringToUTF8 sample_os fn \<noteq> None"
    by (simp add: dir_keep_going) (simp add: sample_os_def wide_to_ascii_def wide_def)
  have a: "os_UTF8ToString sample_os ''tape'' = Some (wide ''tape'')"
    by (simp add: sample_os_def ascii_to_wide_def wide_def)
  have b: "os_GetFileAttributesExW sample_os (wide ''tape'') = Inr (sample_attributes 0x1020)"
    by (simp add: sample_os_def wide_def)
  have c: "SDL_SYS_FSstat sample_os ''tape'' blank fresh =
     (fst (SDL_SYS_FSstat sample_os ''tape'' blank fresh),
      fst (snd (SDL_SYS_FSstat sample_os ''tape'' blank fresh)),
      snd (snd (SDL_SYS_FSstat sample_os ''tape'' blank fresh)))"
    by simp
  have d: "os_UTF8ToString sample_os ''new'' = Some (wide ''new'') \<and>
           os_CreateDirectoryW sample_os (wide ''new'')"
    by (simp add: sample_os_def ascii_to_wide_def wide_def)
  have e: "bit (dwFileAttributes (sample_attributes 0x1020)) 12 \<and>
           \<not> bit (dwFileAttributes (sample_attributes 0x1020)) 4"
    by (simp add: sample_attributes_def)
  have f: "sint (FileTimeToSDLTime (ftLastWriteTime (sample_attributes 0x1020))) = 1"
    by (simp add: FileTimeToSDLTime_def QuadPart_def delta_1601_epoch_100ns_def
        SDL_NS_PER_SECOND_def sample_attributes_def)
  have g: "uint (nFileSizeHigh (sample_attributes 0x1020)) * 2 ^ 32
             + uint (nFileSizeLow (sample_attributes 0x1020)) = 5"
    by (simp add: sample_attributes_def)
  note t = SDL_SYS_FSstat_populates_info
    [where cb = keep_going and path = "''dir''" and dirname = "''logical''" and we = fresh
       and ret = "fst ?run" and we' = "snd ?run" and evs = "trace (snd ?run)"
       and p = "''new''" and q = "wide ''new''", OF a b c]
  have 1: "fst (SDL_SYS_FSstat sample_os ''tape'' blank fresh) = 1"
    using t by (rule conjunct1)
  have 2: "info_type (fst (snd (SDL_SYS_FSstat sample_os ''tape'' blank fresh))) = SDL_PATHTYPE_OTHER \<and>
     uint (info_size (fst (snd (SDL_SYS_FSstat sample_os ''tape'' blank fresh)))) = 5"
    using t [THEN conjunct2, THEN conjunct2, THEN conjunct1] e g by simp
  have 3: "sint (modify_time (fst (snd (SDL_SYS_FSstat sample_os ''tape'' blank fresh)))) = 1"
    using t [THEN conjunct2, THEN conjunct2, THEN conjunct2, THEN conjunct2, THEN conjunct2,
        THEN conjunct1] f by simp
  have 4: "fst (SDL_SYS_FSmkdir sample_os ''new'' fresh) = 0"
    using t [THEN conjunct2, THEN conjunct2, THEN conjunct2, THEN conjunct2, THEN conjunct2,
        THEN conjunct2, THEN conjunct2, THEN conjunct1] d by simp
  have 5: "fst ?run = 1"
    using t [THEN conjunct2, THEN conjunct2, THEN conjunct2, THEN conjunct2, THEN conjunct2,
        THEN conjunct2, THEN conjunct2, THEN conjunct2, THEN conjunct2, THEN conjunct2]
      er et ea em es ec by blast
  show ?thesis using 1 2 3 4 5 by simp
qed

text \<open>
  Claim C5 as it is written sets the result 1 of stat apart from a success convention 0
  of all the other operations. Enumerate is one of them: the enumeration of \<^verbatim>\<open>dir\<close> to its
  end delivers the five entries, records no error and returns 1, the value that stat
  returns for the same directory.
\<close>

theorem SDL_SYS_FSenumerate_success_not_0_counterexample:
  "fst (SDL_SYS_FSenumerate sample_os keep_going ''dir'' ''logical'' fresh) = 1 \<and>
   last_error (snd (SDL_SYS_FSenumerate sample_os keep_going ''dir'' ''logical'' fresh)) = None \<and>
   length (delivered (trace (snd (SDL_SYS_FSenumerate sample_os keep_going ''dir'' ''logical''
                                    fresh)))) = 5 \<and>
   fst (SDL_SYS_FSstat sample_os ''dir'' blank fresh) = 1"
  by (simp add: dir_keep_going)
    (simp add: SDL_SYS_FSstat_def sample_os_def ascii_to_wide_def wide_def WIN_SetError_def)



section \<open>What the exits release\<close>

text \<open>Apart from the two returns of remove after a failed attribute query, every exit of
  every operation leaves no buffer and no search handle held.\<close>

lemma body_run_held: "body_run env dirname fn retval r evs \<Longrightarrow> foldl held_after rs evs = rs"
  by (induction rule: body_run.induct) simp_all

lemma find_run_held:
  "find_run env dirname fn rest retval ret evs \<Longrightarrow> foldl held_after rs evs = rs"
  by (induction rule: find_run.induct) (simp_all add: body_run_held)

lemma drive_run_held:
  "drive_run dirname drives i retval ret evs \<Longrightarrow> foldl held_after rs evs = rs"
  by (induction rule: drive_run.induct) simp_all

lemma enumerate_run_held: "enumerate_run env fullpath dirname ret evs \<Longrightarrow> held evs = []"
  by (induction rule: enumerate_run.induct)
    (simp_all add: held_def drive_run_held find_run_held)

lemma SDL_SYS_FSenumerate_releases:
  assumes "SDL_SYS_FSenumerate env cb fullpath dirname w = (ret, w')"
    and "trace w' = trace w @ evs"
  shows "held evs = []"
proof -
  from SDL_SYS_FSenumerate_run [OF assms(1)] obtain evs' where
    "trace w' = trace w @ evs'" "enumerate_run env fullpath dirname ret evs'" by blast
  then have "enumerate_run env fullpath dirname ret evs" using assms(2) by simp
  then show ?thesis by (rule enumerate_run_held)
qed

lemma SDL_SYS_FSrename_releases:
  "trace (snd (SDL_SYS_FSrename env oldfullpath newfullpath w)) = trace w @ evs \<Longrightarrow> held evs = []"
  by (auto simp: SDL_SYS_FSrename_def emit_def WIN_SetError_def held_def Let_def
      split: option.splits if_splits)

lemma SDL_SYS_FSmkdir_releases:
  "trace (snd (SDL_SYS_FSmkdir env fullpath w)) = trace w @ evs \<Longrightarrow> held evs = []"
  by (auto simp: SDL_SYS_FSmkdir_def emit_def WIN_SetError_def held_def Let_def
      split: option.splits if_splits)

lemma SDL_SYS_FSstat_releases:
  "trace (snd (snd (SDL_SYS_FSstat env fullpath info w))) = trace w @ evs \<Longrightarrow> held evs = []"
  by (auto simp: SDL_SYS_FSstat_def emit_def WIN_SetError_def held_def Let_def
      split: option.splits sum.splits)

lemma SDL_SYS_FSremove_releases_after_query:
  "os_UTF8ToString env fullpath = None \<or>
   (\<exists>wp info. os_UTF8ToString env fullpath = Some wp \<and> os_GetFileAttributesExW env wp = Inr info)
   \<Longrightarrow> trace (snd (SDL_SYS_FSremove env fullpath w)) = trace w @ evs \<Longrightarrow> held evs = []"
  by (auto simp: SDL_SYS_FSremove_def emit_def WIN_SetError_def held_def Let_def
      split: if_splits)

lemma SDL_SYS_FSremove_keeps_after_failed_query:
  "os_UTF8ToString env fullpath = Some wp \<Longrightarrow> os_GetFileAttributesExW env wp = Inl err
   \<Longrightarrow> trace (snd (SDL_SYS_FSremove env fullpath w)) = trace w @ evs
   \<Longrightarrow> held evs = [Buffer wpath]"
  by (auto simp: SDL_SYS_FSremove_def emit_def WIN_SetError_def held_def Let_def
      split: if_splits)

end
